theory Spec2Isabelle
  imports Complex_Main
begin

section \<open>Floating-point values\<close>

text \<open>
  The program works on numpy floats. A float is a finite number, one of the two
  infinities, or NaN. The operations \<open>fl_add\<close>, \<open>fl_sub\<close> and \<open>fl_mul\<close> give
  the exact result on finite operands and follow IEEE 754 on the special values; the
  operations of the program round that result, see \<open>rounded\<close> below.
\<close>

datatype npfloat = Fin real | PInf | NInf | NaN

fun isnan :: "npfloat \<Rightarrow> bool" where
  "isnan NaN = True"
| "isnan _ = False"

fun isinf :: "npfloat \<Rightarrow> bool" where
  "isinf PInf = True"
| "isinf NInf = True"
| "isinf _ = False"

fun fl_neg :: "npfloat \<Rightarrow> npfloat" where
  "fl_neg (Fin a) = Fin (- a)"
| "fl_neg PInf = NInf"
| "fl_neg NInf = PInf"
| "fl_neg NaN = NaN"

fun fl_add :: "npfloat \<Rightarrow> npfloat \<Rightarrow> npfloat" where
  "fl_add NaN _ = NaN"
| "fl_add _ NaN = NaN"
| "fl_add (Fin a) (Fin b) = Fin (a + b)"
| "fl_add PInf NInf = NaN"
| "fl_add NInf PInf = NaN"
| "fl_add PInf _ = PInf"
| "fl_add _ PInf = PInf"
| "fl_add NInf _ = NInf"
| "fl_add _ NInf = NInf"

definition fl_sub :: "npfloat \<Rightarrow> npfloat \<Rightarrow> npfloat" where
  "fl_sub a b = fl_add a (fl_neg b)"

fun fl_scale :: "real \<Rightarrow> npfloat \<Rightarrow> npfloat" where
  "fl_scale a (Fin b) = Fin (a * b)"
| "fl_scale a NaN = NaN"
| "fl_scale a PInf = (if 0 < a then PInf else if a < 0 then NInf else NaN)"
| "fl_scale a NInf = (if 0 < a then NInf else if a < 0 then PInf else NaN)"

fun fl_mul :: "npfloat \<Rightarrow> npfloat \<Rightarrow> npfloat" where
  "fl_mul (Fin a) y = fl_scale a y"
| "fl_mul x (Fin b) = fl_scale b x"
| "fl_mul NaN _ = NaN"
| "fl_mul _ NaN = NaN"
| "fl_mul PInf PInf = PInf"
| "fl_mul NInf NInf = PInf"
| "fl_mul PInf NInf = NInf"
| "fl_mul NInf PInf = NInf"

text \<open>Comparisons: every comparison with NaN is false.\<close>

fun fl_lt :: "npfloat \<Rightarrow> npfloat \<Rightarrow> bool" where
  "fl_lt NaN _ = False"
| "fl_lt _ NaN = False"
| "fl_lt (Fin a) (Fin b) = (a < b)"
| "fl_lt _ NInf = False"
| "fl_lt PInf _ = False"
| "fl_lt NInf _ = True"
| "fl_lt _ PInf = True"

fun fl_le :: "npfloat \<Rightarrow> npfloat \<Rightarrow> bool" where
  "fl_le NaN _ = False"
| "fl_le _ NaN = False"
| "fl_le (Fin a) (Fin b) = (a \<le> b)"
| "fl_le NInf _ = True"
| "fl_le _ PInf = True"
| "fl_le _ NInf = False"
| "fl_le PInf _ = False"

definition fl_gt :: "npfloat \<Rightarrow> npfloat \<Rightarrow> bool" where
  "fl_gt a b = fl_lt b a"

definition fl_ge :: "npfloat \<Rightarrow> npfloat \<Rightarrow> bool" where
  "fl_ge a b = fl_le b a"

text \<open>
  Rounding. A float operation returns the exact result rounded to the float format:
  a finite float near it, or an infinity when it overflows. The rounding \<open>rnd\<close> of
  the format is a parameter of the model, so that what is proved holds for every
  format and rounding mode. Infinities and NaN are not rounded.
\<close>

type_synonym rounding = "real \<Rightarrow> npfloat"

definition rounded :: "rounding \<Rightarrow> npfloat \<Rightarrow> npfloat" where
  "rounded rnd x = (case x of Fin r \<Rightarrow> rnd r | PInf \<Rightarrow> PInf | NInf \<Rightarrow> NInf | NaN \<Rightarrow> NaN)"

definition radd :: "rounding \<Rightarrow> npfloat \<Rightarrow> npfloat \<Rightarrow> npfloat" where
  "radd rnd a b = rounded rnd (fl_add a b)"

definition rsub :: "rounding \<Rightarrow> npfloat \<Rightarrow> npfloat \<Rightarrow> npfloat" where
  "rsub rnd a b = rounded rnd (fl_sub a b)"

definition rmul :: "rounding \<Rightarrow> npfloat \<Rightarrow> npfloat \<Rightarrow> npfloat" where
  "rmul rnd a b = rounded rnd (fl_mul a b)"

text \<open>
  Two roundings for concrete runs: \<open>Fin\<close> is exact arithmetic, and \<open>overflow32\<close>
  overflows where single precision does, beyond \<open>2^128 - 2^104\<close>, and is exact below.
\<close>

definition overflow32 :: rounding where
  "overflow32 r =
     (if r > 2 ^ 128 - 2 ^ 104 then PInf
      else if r < - (2 ^ 128 - 2 ^ 104) then NInf
      else Fin r)"

section \<open>Loss collector: \<open>compute_loss_safe\<close>\<close>

text \<open>
  One pass of the \<open>try\<close> body of \<open>compute_loss_safe\<close> on a batch either raises
  (the forward pass, the indexing of \<open>model.losses\<close> or the conversion fails) or
  yields the float \<open>loss_numpy\<close>. The scoring model is the function from a batch to
  that outcome.
\<close>

datatype extraction = Raises | Yields npfloat

text \<open>
  The loop body: the state is the pair of \<open>losses\<close> and \<open>skipped_count\<close>.
  A NaN or infinite loss and a raised exception both add one to \<open>skipped_count\<close>
  and go on with the next batch.
\<close>

fun compute_loss_safe_loop ::
  "('x \<Rightarrow> extraction) \<Rightarrow> 'x list \<Rightarrow> npfloat list \<times> nat \<Rightarrow> npfloat list \<times> nat" where
  "compute_loss_safe_loop model [] (losses, skipped_count) = (losses, skipped_count)"
| "compute_loss_safe_loop model (x # data) (losses, skipped_count) =
     (case model x of
        Yields loss_numpy \<Rightarrow>
          if isnan loss_numpy \<or> isinf loss_numpy
          then compute_loss_safe_loop model data (losses, skipped_count + 1)
          else compute_loss_safe_loop model data (losses @ [loss_numpy], skipped_count)
      | Raises \<Rightarrow> compute_loss_safe_loop model data (losses, skipped_count + 1))"

definition compute_loss_safe :: "('x \<Rightarrow> extraction) \<Rightarrow> 'x list \<Rightarrow> npfloat list" where
  "compute_loss_safe model data =
     (case compute_loss_safe_loop model data ([], 0) of
        (losses, skipped_count) \<Rightarrow>
          if length losses = 0 then [Fin 10] else losses)"

text \<open>An example is valid when its extraction yields a finite loss.\<close>

fun valid_example :: "('x \<Rightarrow> extraction) \<Rightarrow> 'x \<Rightarrow> bool" where
  "valid_example model x =
     (case model x of Yields v \<Rightarrow> \<not> isnan v \<and> \<not> isinf v | Raises \<Rightarrow> False)"

fun loss_of :: "('x \<Rightarrow> extraction) \<Rightarrow> 'x \<Rightarrow> npfloat" where
  "loss_of model x = (case model x of Yields v \<Rightarrow> v | Raises \<Rightarrow> NaN)"

section \<open>Decision procedure: \<open>predict\<close>\<close>

text \<open>
  The tokenizer maps a sentence and the maximal length to the classifier's input;
  \<open>classifier\<close> stands for the forward pass followed by \<open>np.argmax\<close> on the first
  row of logits, which gives a class id.
\<close>

definition predict_preprocess :: "'s \<Rightarrow> ('s \<Rightarrow> nat \<Rightarrow> 'i) \<Rightarrow> nat \<Rightarrow> 'i" where
  "predict_preprocess x tokenizer max_length = tokenizer x max_length"

fun predict_loop ::
  "('i \<Rightarrow> int) \<Rightarrow> ('s \<Rightarrow> nat \<Rightarrow> 'i) \<Rightarrow> (npfloat \<times> 's) list \<Rightarrow> npfloat \<Rightarrow> int \<Rightarrow> nat
     \<Rightarrow> int list \<Rightarrow> int list" where
  "predict_loop classifier tokenizer [] threshold ood_label max_length labels = labels"
| "predict_loop classifier tokenizer ((loss, sen) # rest) threshold ood_label max_length labels =
     (if fl_le loss threshold
      then predict_loop classifier tokenizer rest threshold ood_label max_length
             (labels @ [classifier (predict_preprocess sen tokenizer max_length)])
      else predict_loop classifier tokenizer rest threshold ood_label max_length
             (labels @ [ood_label]))"

definition predict ::
  "('i \<Rightarrow> int) \<Rightarrow> ('s \<Rightarrow> nat \<Rightarrow> 'i) \<Rightarrow> npfloat list \<Rightarrow> 's list \<Rightarrow> npfloat \<Rightarrow> int \<Rightarrow> nat
     \<Rightarrow> int list" where
  "predict classifier tokenizer losses sentences threshold ood_label max_length =
     predict_loop classifier tokenizer (zip losses sentences) threshold ood_label max_length []"

text \<open>The label decided for one pair.\<close>

definition decision ::
  "('i \<Rightarrow> int) \<Rightarrow> ('s \<Rightarrow> nat \<Rightarrow> 'i) \<Rightarrow> npfloat \<Rightarrow> int \<Rightarrow> nat \<Rightarrow> npfloat \<Rightarrow> 's \<Rightarrow> int" where
  "decision classifier tokenizer threshold ood_label max_length loss sen =
     (if fl_le loss threshold then classifier (predict_preprocess sen tokenizer max_length)
      else ood_label)"

section \<open>Library functions used by the fitters\<close>

text \<open>
  Exceptions are values. \<open>ValueError\<close> and \<open>IndexError\<close> are raised by numpy,
  \<open>FitFailure\<close> stands for any exception raised by the distribution fit.
\<close>

datatype error = ValueError | IndexError | FitFailure

text \<open>
  \<open>np.percentile\<close> is a parameter of the fitter: a function from an array and a
  percentile to a float, which may raise. Its result is a float of the format and may
  be infinite or NaN.
\<close>

type_synonym percentile_fn = "real list \<Rightarrow> npfloat \<Rightarrow> error + npfloat"

text \<open>
  The default method of \<open>np.percentile\<close>, linear interpolation, for concrete runs.
  On the sorted array of length \<open>n\<close> the virtual index is \<open>(n - 1) * q / 100\<close>; the
  result interpolates between the two neighbouring elements \<open>a\<close> and \<open>b\<close> with the
  weight \<open>t\<close>: it is \<open>a + (b - a) * t\<close>, and \<open>b - (b - a) * (1 - t)\<close> when
  \<open>t >= 0.5\<close>. The difference, the products and the sum are rounded; the index is
  computed exactly. A percentile outside \<open>[0, 100]\<close> raises \<open>ValueError\<close>; an empty
  array has no element to read.
\<close>

definition lerp :: "rounding \<Rightarrow> real \<Rightarrow> real \<Rightarrow> real \<Rightarrow> npfloat" where
  "lerp rnd a b t =
     (let diff_b_a = rnd (b - a)
      in if t \<ge> 1 / 2
         then rsub rnd (Fin b) (rmul rnd diff_b_a (rnd (1 - t)))
         else radd rnd (Fin a) (rmul rnd diff_b_a (Fin t)))"

definition percentile_lerp :: "rounding \<Rightarrow> percentile_fn" where
  "percentile_lerp rnd a q =
     (case q of
        Fin r \<Rightarrow>
          if r < 0 \<or> 100 < r then Inl ValueError
          else if a = [] then Inl IndexError
          else
            (let arr = sort a;
                 n = length arr;
                 virtual_index = real (n - 1) * (r / 100);
                 previous = nat \<lfloor>virtual_index\<rfloor>;
                 next = min (previous + 1) (n - 1);
                 gamma = virtual_index - real previous
             in Inr (lerp rnd (arr ! previous) (arr ! next) gamma))
      | _ \<Rightarrow> Inl ValueError)"

text \<open>The value of that percentile in exact arithmetic.\<close>

definition exact_percentile :: "real list \<Rightarrow> real \<Rightarrow> real" where
  "exact_percentile a q =
     (let arr = sort a;
          n = length arr;
          virtual_index = real (n - 1) * (q / 100);
          previous = nat \<lfloor>virtual_index\<rfloor>;
          next = min (previous + 1) (n - 1);
          gamma = virtual_index - real previous
      in arr ! previous + (arr ! next - arr ! previous) * gamma)"

fun np_min :: "real list \<Rightarrow> error + real" where
  "np_min [] = Inl ValueError"
| "np_min (x # xs) = Inr (fold min xs x)"

fun np_max :: "real list \<Rightarrow> error + real" where
  "np_max [] = Inl ValueError"
| "np_max (x # xs) = Inr (fold max xs x)"

section \<open>Ensemble score and grouping by class\<close>

text \<open>\<open>ood_score = 0.5 * (1 - max_prob) + 0.5 * loss\<close>, on floats.\<close>

definition ood_score :: "rounding \<Rightarrow> npfloat \<Rightarrow> npfloat \<Rightarrow> npfloat" where
  "ood_score rnd max_prob loss =
     radd rnd (rmul rnd (Fin 0.5) (rsub rnd (Fin 1) max_prob)) (rmul rnd (Fin 0.5) loss)"

text \<open>
  \<open>class_to_samples\<close> is a dictionary from class to the list of its scores. Python
  dictionaries keep insertion order and the second loop of the fitters walks the
  items in that order, so the dictionary is an association list: a new class goes to
  the end, a known class gets the score appended to its list.
\<close>

fun append_score :: "'c \<Rightarrow> 'v \<Rightarrow> ('c \<times> 'v list) list \<Rightarrow> ('c \<times> 'v list) list" where
  "append_score cls s [] = [(cls, [s])]"
| "append_score cls s ((k, v) # kvs) =
     (if k = cls then (k, v @ [s]) # kvs else (k, v) # append_score cls s kvs)"

text \<open>
  In the fitters \<open>classifier\<close> stands for the forward pass, the softmax and
  \<open>np.max\<close>: it gives the maximal class probability of a preprocessed sentence.
  The first loop of \<open>fit_evt_models\<close> records every score as it is computed.
\<close>

fun fit_evt_models_group ::
  "('i \<Rightarrow> npfloat) \<Rightarrow> ('s \<Rightarrow> nat \<Rightarrow> 'i) \<Rightarrow> rounding \<Rightarrow> (npfloat \<times> 's \<times> 'c) list \<Rightarrow> nat
     \<Rightarrow> ('c \<times> npfloat list) list \<Rightarrow> ('c \<times> npfloat list) list" where
  "fit_evt_models_group classifier tokenizer rnd [] max_length class_to_samples =
     class_to_samples"
| "fit_evt_models_group classifier tokenizer rnd ((loss, sen, cls) # rest) max_length
       class_to_samples =
     (let max_prob = classifier (predict_preprocess sen tokenizer max_length)
      in fit_evt_models_group classifier tokenizer rnd rest max_length
           (append_score cls (ood_score rnd max_prob loss) class_to_samples))"

text \<open>
  The first loop of \<open>fit_evt_models_robust\<close> skips an example whose loss is NaN or
  infinite before the classifier is called, and skips an example whose score is NaN
  or infinite. A score that passes both tests is a finite number, so the lists hold
  reals.
\<close>

fun fit_evt_models_robust_group ::
  "('i \<Rightarrow> npfloat) \<Rightarrow> ('s \<Rightarrow> nat \<Rightarrow> 'i) \<Rightarrow> rounding \<Rightarrow> (npfloat \<times> 's \<times> 'c) list \<Rightarrow> nat
     \<Rightarrow> ('c \<times> real list) list \<Rightarrow> ('c \<times> real list) list" where
  "fit_evt_models_robust_group classifier tokenizer rnd [] max_length class_to_samples =
     class_to_samples"
| "fit_evt_models_robust_group classifier tokenizer rnd ((loss, sen, cls) # rest) max_length
       class_to_samples =
     (if isnan loss \<or> isinf loss
      then fit_evt_models_robust_group classifier tokenizer rnd rest max_length
             class_to_samples
      else
        (let max_prob = classifier (predict_preprocess sen tokenizer max_length)
         in case ood_score rnd max_prob loss of
              Fin s \<Rightarrow>
                fit_evt_models_robust_group classifier tokenizer rnd rest max_length
                  (append_score cls s class_to_samples)
            | _ \<Rightarrow>
                fit_evt_models_robust_group classifier tokenizer rnd rest max_length
                  class_to_samples))"

section \<open>Robust fitter: \<open>fit_evt_models_robust\<close>\<close>

text \<open>
  The distribution fit \<open>stats.genextreme.fit\<close> and the quantile function
  \<open>stats.genextreme.ppf\<close> are parameters. The fit returns the triple
  \<open>(shape, loc, scale)\<close> of finite numbers or raises; the quantile function returns
  a float, which may be infinite or NaN. The two result dictionaries are the pair
  \<open>(evt_models, thresholds)\<close>.
\<close>

type_synonym gev_params = "real \<times> real \<times> real"

type_synonym gev_fit_fn = "real list \<Rightarrow> error + gev_params"

type_synonym gev_ppf_fn = "npfloat \<Rightarrow> real \<Rightarrow> real \<Rightarrow> real \<Rightarrow> npfloat"

type_synonym 'c tables = "('c \<rightharpoonup> gev_params) \<times> ('c \<rightharpoonup> npfloat)"

text \<open>\<open>thresholds[cls] = np.percentile(a, q)\<close>\<close>

definition percentile_threshold ::
  "percentile_fn \<Rightarrow> 'c \<Rightarrow> real list \<Rightarrow> npfloat \<Rightarrow> 'c tables \<Rightarrow> error + 'c tables" where
  "percentile_threshold percentile cls a q tabs =
     (case percentile a q of
        Inl e \<Rightarrow> Inl e
      | Inr p \<Rightarrow> Inr (fst tabs, (snd tabs)(cls \<mapsto> p)))"

text \<open>\<open>100 * (1 - fpr)\<close>\<close>

definition fpr_percent :: "rounding \<Rightarrow> real \<Rightarrow> npfloat" where
  "fpr_percent rnd fpr = rmul rnd (Fin 100) (rsub rnd (Fin 1) (Fin fpr))"

text \<open>
  The body of the \<open>try\<close> block. An exception leaves the block with the dictionaries
  as they are at that point: \<open>evt_models[cls]\<close> is written before the threshold is
  computed.
\<close>

definition fit_evt_models_robust_try ::
  "rounding \<Rightarrow> percentile_fn \<Rightarrow> gev_fit_fn \<Rightarrow> gev_ppf_fn \<Rightarrow> real
     \<Rightarrow> 'c \<Rightarrow> real list \<Rightarrow> real list \<Rightarrow> 'c tables \<Rightarrow> (error \<times> 'c tables) + 'c tables" where
  "fit_evt_models_robust_try rnd percentile gev_fit gev_ppf fpr cls scores_array scores_clean
       tabs =
     (case gev_fit (map uminus scores_clean) of
        Inl e \<Rightarrow> Inl (e, tabs)
      | Inr (shape, loc, scale) \<Rightarrow>
          if \<bar>shape\<bar> > 2 \<or> scale \<le> 0 \<or> scale > 10 then
            (case percentile_threshold percentile cls scores_clean (fpr_percent rnd fpr)
                    tabs of
               Inl e \<Rightarrow> Inl (e, tabs)
             | Inr tabs' \<Rightarrow> Inr tabs')
          else
            (let tabs1 = ((fst tabs)(cls \<mapsto> (shape, loc, scale)), snd tabs);
                 threshold = fl_neg (gev_ppf (rsub rnd (Fin 1) (Fin fpr)) shape loc scale);
                 fallback =
                   (case percentile_threshold percentile cls scores_clean
                           (fpr_percent rnd fpr) tabs1 of
                      Inl e \<Rightarrow> Inl (e, tabs1)
                    | Inr tabs' \<Rightarrow> Inr tabs')
             in case np_min scores_clean of
                  Inl e \<Rightarrow> Inl (e, tabs1)
                | Inr lo \<Rightarrow>
                    if fl_lt threshold (Fin lo) then fallback
                    else
                      (case np_max scores_array of
                         Inl e \<Rightarrow> Inl (e, tabs1)
                       | Inr hi \<Rightarrow>
                           if fl_gt threshold (rmul rnd (Fin hi) (Fin 2)) then fallback
                           else Inr (fst tabs1, (snd tabs1)(cls \<mapsto> threshold)))))"

text \<open>
  The IQR bounds, computed from the two quartiles in float arithmetic, and the scores
  kept by the outlier removal. The comparisons of a score with the bounds are exact.
\<close>

definition iqr_bounds :: "rounding \<Rightarrow> npfloat \<Rightarrow> npfloat \<Rightarrow> npfloat \<times> npfloat" where
  "iqr_bounds rnd q1 q3 =
     (let iqr = rsub rnd q3 q1;
          lower_bound = rsub rnd q1 (rmul rnd (Fin 1.5) iqr);
          upper_bound = radd rnd q3 (rmul rnd (Fin 1.5) iqr)
      in (lower_bound, upper_bound))"

definition scores_clean_of :: "rounding \<Rightarrow> real list \<Rightarrow> npfloat \<Rightarrow> npfloat \<Rightarrow> real list" where
  "scores_clean_of rnd scores_array q1 q3 =
     (case iqr_bounds rnd q1 q3 of
        (lower_bound, upper_bound) \<Rightarrow>
          filter (\<lambda>s. fl_ge (Fin s) lower_bound \<and> fl_le (Fin s) upper_bound) scores_array)"

text \<open>
  The part of an iteration that follows the outlier removal: with fewer than five
  scores left the threshold is the 95th percentile of the untrimmed scores, otherwise
  the \<open>try\<close> block runs and its handler sets the percentile threshold of the
  trimmed scores.
\<close>

definition fit_evt_models_robust_trimmed ::
  "rounding \<Rightarrow> percentile_fn \<Rightarrow> gev_fit_fn \<Rightarrow> gev_ppf_fn \<Rightarrow> real
     \<Rightarrow> 'c \<Rightarrow> real list \<Rightarrow> real list \<Rightarrow> 'c tables \<Rightarrow> error + 'c tables" where
  "fit_evt_models_robust_trimmed rnd percentile gev_fit gev_ppf fpr cls scores_array
       scores_clean tabs =
     (if length scores_clean < 5
      then percentile_threshold percentile cls scores_array (Fin 95) tabs
      else
        (case fit_evt_models_robust_try rnd percentile gev_fit gev_ppf fpr cls scores_array
                scores_clean tabs of
           Inr tabs' \<Rightarrow> Inr tabs'
         | Inl (e, tabs') \<Rightarrow>
             percentile_threshold percentile cls scores_clean (fpr_percent rnd fpr) tabs'))"

text \<open>One iteration of the second loop, for the class \<open>cls\<close> with its scores.\<close>

definition fit_evt_models_robust_class ::
  "rounding \<Rightarrow> percentile_fn \<Rightarrow> gev_fit_fn \<Rightarrow> gev_ppf_fn \<Rightarrow> real
     \<Rightarrow> 'c \<Rightarrow> real list \<Rightarrow> 'c tables \<Rightarrow> error + 'c tables" where
  "fit_evt_models_robust_class rnd percentile gev_fit gev_ppf fpr cls scores tabs =
     (if length scores < 10 then percentile_threshold percentile cls scores (Fin 95) tabs
      else
        (case percentile scores (Fin 25) of
           Inl e \<Rightarrow> Inl e
         | Inr q1 \<Rightarrow>
             (case percentile scores (Fin 75) of
                Inl e \<Rightarrow> Inl e
              | Inr q3 \<Rightarrow>
                  fit_evt_models_robust_trimmed rnd percentile gev_fit gev_ppf fpr cls scores
                    (scores_clean_of rnd scores q1 q3) tabs)))"

fun fit_evt_models_robust_loop ::
  "rounding \<Rightarrow> percentile_fn \<Rightarrow> gev_fit_fn \<Rightarrow> gev_ppf_fn \<Rightarrow> real
     \<Rightarrow> ('c \<times> real list) list \<Rightarrow> 'c tables \<Rightarrow> error + 'c tables" where
  "fit_evt_models_robust_loop rnd percentile gev_fit gev_ppf fpr [] tabs = Inr tabs"
| "fit_evt_models_robust_loop rnd percentile gev_fit gev_ppf fpr ((cls, scores) # items) tabs =
     (case fit_evt_models_robust_class rnd percentile gev_fit gev_ppf fpr cls scores tabs of
        Inl e \<Rightarrow> Inl e
      | Inr tabs' \<Rightarrow> fit_evt_models_robust_loop rnd percentile gev_fit gev_ppf fpr items tabs')"

text \<open>
  The whole function. It returns \<open>(thresholds, evt_models)\<close>, or the exception that
  left it.
\<close>

definition fit_evt_models_robust ::
  "('i \<Rightarrow> npfloat) \<Rightarrow> ('s \<Rightarrow> nat \<Rightarrow> 'i) \<Rightarrow> rounding \<Rightarrow> percentile_fn \<Rightarrow> gev_fit_fn
     \<Rightarrow> gev_ppf_fn \<Rightarrow> npfloat list \<Rightarrow> 's list \<Rightarrow> 'c list \<Rightarrow> nat \<Rightarrow> real
     \<Rightarrow> error + (('c \<rightharpoonup> npfloat) \<times> ('c \<rightharpoonup> gev_params))" where
  "fit_evt_models_robust classifier tokenizer rnd percentile gev_fit gev_ppf losses sentences
       true_classes max_length fpr =
     (let class_to_samples =
            fit_evt_models_robust_group classifier tokenizer rnd
              (zip losses (zip sentences true_classes)) max_length []
      in case fit_evt_models_robust_loop rnd percentile gev_fit gev_ppf fpr class_to_samples
                (Map.empty, Map.empty) of
           Inl e \<Rightarrow> Inl e
         | Inr (evt_models, thresholds) \<Rightarrow> Inr (thresholds, evt_models))"

text \<open>
  The sanity bounds on the fitted parameters, and the trimmed scores of a class in
  exact arithmetic, as the theorems below name them.
\<close>

definition params_ok :: "gev_params \<Rightarrow> bool" where
  "params_ok ps = (case ps of (shape, loc, scale) \<Rightarrow> \<bar>shape\<bar> \<le> 2 \<and> 0 < scale \<and> scale \<le> 10)"

definition exact_trimmed :: "real list \<Rightarrow> real list" where
  "exact_trimmed scores =
     scores_clean_of Fin scores (Fin (exact_percentile scores 25))
       (Fin (exact_percentile scores 75))"

text \<open>
  The valid scores of the class \<open>c\<close>: the scores of the examples whose true class is
  \<open>c\<close>, whose loss is finite and whose score is finite, in the order of the input.
\<close>

fun class_scores ::
  "('i \<Rightarrow> npfloat) \<Rightarrow> ('s \<Rightarrow> nat \<Rightarrow> 'i) \<Rightarrow> rounding \<Rightarrow> nat \<Rightarrow> 'c \<Rightarrow> (npfloat \<times> 's \<times> 'c) list
     \<Rightarrow> real list" where
  "class_scores classifier tokenizer rnd max_length c [] = []"
| "class_scores classifier tokenizer rnd max_length c ((loss, sen, cls) # rest) =
     (if cls = c \<and> \<not> isnan loss \<and> \<not> isinf loss
      then (case ood_score rnd (classifier (predict_preprocess sen tokenizer max_length))
                   loss of
              Fin s \<Rightarrow> s # class_scores classifier tokenizer rnd max_length c rest
            | _ \<Rightarrow> class_scores classifier tokenizer rnd max_length c rest)
      else class_scores classifier tokenizer rnd max_length c rest)"

text \<open>
  Example inputs for the fitter: ten validation examples of class \<open>0\<close> whose
  classifier probability is \<open>1\<close>, so that the score is half the loss.
\<close>

abbreviation ex_classifier :: "string \<Rightarrow> npfloat" where
  "ex_classifier \<equiv> (\<lambda>i. Fin 1)"

abbreviation ex_tokenizer :: "string \<Rightarrow> nat \<Rightarrow> string" where
  "ex_tokenizer \<equiv> (\<lambda>s n. take n s)"

abbreviation ex_losses :: "npfloat list" where
  "ex_losses \<equiv> [Fin 2, Fin 4, Fin 6, Fin 8, Fin 10, Fin 12, Fin 14, Fin 16, Fin 18, Fin 20]"

abbreviation ex_sentences :: "string list" where
  "ex_sentences \<equiv> [''a'', ''b'', ''c'', ''d'', ''e'', ''f'', ''g'', ''h'', ''i'', ''j'']"

abbreviation ex_classes :: "nat list" where
  "ex_classes \<equiv> [0, 0, 0, 0, 0, 0, 0, 0, 0, 0]"

abbreviation ex_scores :: "real list" where
  "ex_scores \<equiv> [1, 2, 3, 4, 5, 6, 7, 8, 9, 10]"

text \<open>
  Example inputs that overflow in single precision: a stub classifier that returns
  \<open>3e38\<close> for the sentence \<open>x\<close>, and the scores of class \<open>0\<close> that result.
\<close>

abbreviation big_classifier :: "string \<Rightarrow> npfloat" where
  "big_classifier \<equiv> (\<lambda>i. if i = ''x'' then Fin (3 * 10 ^ 38) else Fin 1)"

abbreviation big_losses :: "npfloat list" where
  "big_losses \<equiv> [Fin (- (3 * 10 ^ 38)), Fin (- (3 * 10 ^ 38)), Fin (- (3 * 10 ^ 38)),
      Fin (2 * 10 ^ 38), Fin (2 * 10 ^ 38), Fin (2 * 10 ^ 38), Fin (2 * 10 ^ 38),
      Fin (2 * 10 ^ 38), Fin (2 * 10 ^ 38), Fin (2 * 10 ^ 38)]"

abbreviation big_sentences :: "string list" where
  "big_sentences \<equiv> [''x'', ''x'', ''x'', ''y'', ''y'', ''y'', ''y'', ''y'', ''y'', ''y'']"

abbreviation big_scores :: "real list" where
  "big_scores \<equiv> [1 / 2 - 3 * 10 ^ 38, 1 / 2 - 3 * 10 ^ 38, 1 / 2 - 3 * 10 ^ 38,
      10 ^ 38, 10 ^ 38, 10 ^ 38, 10 ^ 38, 10 ^ 38, 10 ^ 38, 10 ^ 38]"


section \<open>Properties of the loss collector\<close>

lemma compute_loss_safe_loop_eq:
  "compute_loss_safe_loop model data (losses, k) =
     (losses @ map (loss_of model) (filter (valid_example model) data),
      k + length (filter (\<lambda>x. \<not> valid_example model x) data))"
  by (induction data arbitrary: losses k) (auto split: extraction.splits)

lemma finite_loss_of:
  "valid_example model x \<Longrightarrow> \<exists>r. loss_of model x = Fin r"
  by (cases "model x"; cases "loss_of model x") (auto split: extraction.splits)

text \<open>
  Claim C5. If every example is invalid (its extraction raises, or its loss is NaN or
  infinite), \<open>compute_loss_safe\<close> returns exactly the one-element population
  \<open>[10.0]\<close>.
\<close>

theorem compute_loss_safe_all_invalid:
  "\<forall>x \<in> set data. \<not> valid_example model x \<Longrightarrow> compute_loss_safe model data = [Fin 10]"
proof -
  assume "\<forall>x \<in> set data. \<not> valid_example model x"
  then have "filter (valid_example model) data = []"
    by (simp add: filter_empty_conv)
  then show ?thesis
    by (simp add: compute_loss_safe_def compute_loss_safe_loop_eq)
qed

theorem compute_loss_safe_all_invalid_witness:
  "\<not> valid_example (\<lambda>n. if n = 0 then Raises else if n = 1 then Yields NaN else Yields PInf) (0::nat)
   \<and> \<not> valid_example (\<lambda>n. if n = 0 then Raises else if n = 1 then Yields NaN else Yields PInf) (1::nat)
   \<and> \<not> valid_example (\<lambda>n. if n = 0 then Raises else if n = 1 then Yields NaN else Yields PInf) (2::nat)
   \<and> compute_loss_safe (\<lambda>n. if n = 0 then Raises else if n = 1 then Yields NaN else Yields PInf) [0, 1, 2::nat] = [Fin 10]"
  using compute_loss_safe_all_invalid [of "[0, 1, 2::nat]" "\<lambda>n. if n = 0 then Raises else if n = 1 then Yields NaN else Yields PInf"]
  by simp

text \<open>
  Claim C6. If at least one example is valid, the output of \<open>compute_loss_safe\<close> is
  the list of the losses of the valid examples, in order: every example whose
  extraction raises or whose loss is NaN or infinite is left out and counted in
  \<open>skipped_count\<close>, and the loop goes on. The length of the output is the number of
  valid examples, and that number plus \<open>skipped_count\<close> is the number of examples.
\<close>

theorem compute_loss_safe_skips_and_counts:
  assumes "\<exists>x \<in> set data. valid_example model x"
  shows "compute_loss_safe model data = map (loss_of model) (filter (valid_example model) data)
       \<and> length (compute_loss_safe model data) = length (filter (valid_example model) data)
       \<and> snd (compute_loss_safe_loop model data ([], 0)) =
           length (filter (\<lambda>x. \<not> valid_example model x) data)
       \<and> length (filter (valid_example model) data)
           + snd (compute_loss_safe_loop model data ([], 0)) = length data"
proof -
  from assms have ne: "filter (valid_example model) data \<noteq> []"
    by (simp add: filter_empty_conv)
  have out: "compute_loss_safe model data =
      map (loss_of model) (filter (valid_example model) data)"
    using ne by (simp add: compute_loss_safe_def compute_loss_safe_loop_eq)
  have cnt: "snd (compute_loss_safe_loop model data ([], 0)) =
      length (filter (\<lambda>x. \<not> valid_example model x) data)"
    by (simp add: compute_loss_safe_loop_eq)
  have tot: "length (filter (valid_example model) data)
      + length (filter (\<lambda>x. \<not> valid_example model x) data) = length data"
    by (rule sum_length_filter_compl)
  show ?thesis using out cnt tot by simp
qed

theorem compute_loss_safe_skips_and_counts_witness:
  "valid_example (\<lambda>n. if n = 0 then Raises else if n = 1 then Yields NaN else Yields (Fin (real n))) (2::nat)
   \<and> compute_loss_safe (\<lambda>n. if n = 0 then Raises else if n = 1 then Yields NaN else Yields (Fin (real n))) [0, 1, 2, 3::nat] = [Fin 2, Fin 3]
   \<and> snd (compute_loss_safe_loop (\<lambda>n. if n = 0 then Raises else if n = 1 then Yields NaN else Yields (Fin (real n))) [0, 1, 2, 3::nat] ([], 0)) = 2"
  using compute_loss_safe_skips_and_counts [of "[0, 1, 2, 3::nat]" "\<lambda>n. if n = 0 then Raises else if n = 1 then Yields NaN else Yields (Fin (real n))"]
  by simp

text \<open>
  Claim C9. For every input the population returned by \<open>compute_loss_safe\<close> is not
  empty and each of its elements is a finite number, never NaN and never infinite.
\<close>

theorem compute_loss_safe_nonempty_finite:
  "compute_loss_safe model data \<noteq> []
   \<and> (\<forall>v \<in> set (compute_loss_safe model data). \<exists>r. v = Fin r)"
proof (cases "filter (valid_example model) data = []")
  case True
  then show ?thesis by (simp add: compute_loss_safe_def compute_loss_safe_loop_eq)
next
  case False
  then have out: "compute_loss_safe model data =
      map (loss_of model) (filter (valid_example model) data)"
    by (simp add: compute_loss_safe_def compute_loss_safe_loop_eq)
  have "\<forall>v \<in> set (map (loss_of model) (filter (valid_example model) data)). \<exists>r. v = Fin r"
    using finite_loss_of [of model] by auto
  with out False show ?thesis by simp
qed

theorem compute_loss_safe_nonempty_finite_witness:
  "compute_loss_safe (\<lambda>n. if n = 0 then Raises else if n = 1 then Yields PInf else Yields (Fin (real n))) [0, 1, 2, 3::nat] = [Fin 2, Fin 3]"
  using compute_loss_safe_nonempty_finite [of "\<lambda>n. if n = 0 then Raises else if n = 1 then Yields PInf else Yields (Fin (real n))" "[0, 1, 2, 3::nat]"]
  by (simp add: compute_loss_safe_def)

section \<open>Properties of the decision procedure\<close>

lemma predict_loop_eq:
  "predict_loop classifier tokenizer ps threshold ood_label max_length labels =
     labels @ map (\<lambda>(loss, sen).
       decision classifier tokenizer threshold ood_label max_length loss sen) ps"
  by (induction ps arbitrary: labels) (auto simp: decision_def)

lemma predict_eq:
  "predict classifier tokenizer losses sentences threshold ood_label max_length =
     map (\<lambda>(loss, sen). decision classifier tokenizer threshold ood_label max_length loss sen)
       (zip losses sentences)"
  by (simp add: predict_def predict_loop_eq)

lemma fl_gt_not_le: "fl_gt a b \<Longrightarrow> \<not> fl_le a b"
  by (cases a; cases b) (auto simp: fl_gt_def)

text \<open>
  Claim C8. For the pair at position \<open>i\<close> and a fixed threshold: if the loss is at
  most the threshold the label is the classifier's class id for the sentence; if the
  loss is above the threshold the label is \<open>ood_label\<close>. Hence replacing a loss at or
  below the threshold by one above it changes the label at that position to
  \<open>ood_label\<close> and no other label.
\<close>

theorem predict_decision_by_threshold:
  assumes "i < length losses" "i < length sentences"
  shows "(fl_le (losses ! i) threshold \<longrightarrow>
            predict classifier tokenizer losses sentences threshold ood_label max_length ! i =
              classifier (predict_preprocess (sentences ! i) tokenizer max_length))
       \<and> (fl_gt (losses ! i) threshold \<longrightarrow>
            predict classifier tokenizer losses sentences threshold ood_label max_length ! i =
              ood_label)
       \<and> (fl_le (losses ! i) threshold \<and> fl_gt loss' threshold \<longrightarrow>
            predict classifier tokenizer (losses[i := loss']) sentences threshold ood_label
                max_length =
              (predict classifier tokenizer losses sentences threshold ood_label max_length)
                [i := ood_label])"
proof -
  have nth: "predict classifier tokenizer losses sentences threshold ood_label max_length ! i =
      decision classifier tokenizer threshold ood_label max_length (losses ! i) (sentences ! i)"
    using assms by (simp add: predict_eq)
  have upd: "fl_gt loss' threshold \<Longrightarrow>
      predict classifier tokenizer (losses[i := loss']) sentences threshold ood_label max_length =
        (predict classifier tokenizer losses sentences threshold ood_label max_length)
          [i := ood_label]"
  proof -
    assume g: "fl_gt loss' threshold"
    have z: "zip (losses[i := loss']) sentences =
        (zip losses sentences)[i := (loss', sentences ! i)]"
      using assms by (simp add: list_eq_iff_nth_eq nth_list_update)
    show ?thesis
      using fl_gt_not_le [OF g] by (simp add: predict_eq z map_update decision_def)
  qed
  show ?thesis using nth upd fl_gt_not_le [of "losses ! i" threshold]
    by (simp add: decision_def)
qed

theorem predict_decision_by_threshold_witness:
  "(0::nat) < length [Fin 1, Fin 3] \<and> 0 < length [''a'', ''b''] \<and>
   fl_le ([Fin 1, Fin 3] ! 0) (Fin 2) \<and> fl_gt (Fin 5) (Fin 2) \<and>
   fl_gt ([Fin 1, Fin 3] ! 1) (Fin 2) \<and>
   predict (\<lambda>x. 7) (\<lambda>s n. take n s) [Fin 1, Fin 3] [''a'', ''b''] (Fin 2) 9 4 = [7, 9] \<and>
   predict (\<lambda>x. 7) (\<lambda>s n. take n s) ([Fin 1, Fin 3][0 := Fin 5]) [''a'', ''b''] (Fin 2) 9 4 =
     [9, 9]"
  using predict_decision_by_threshold
          [of 0 "[Fin 1, Fin 3]" "[''a'', ''b'']" "Fin 2" "\<lambda>x. 7" "\<lambda>s n. take n s" 9 4 "Fin 5"]
        predict_decision_by_threshold
          [of 1 "[Fin 1, Fin 3]" "[''a'', ''b'']" "Fin 2" "\<lambda>x. 7" "\<lambda>s n. take n s" 9 4 "Fin 5"]
  by (simp add: predict_def predict_preprocess_def fl_gt_def)

text \<open>
  Claim C10. \<open>predict\<close> returns as many labels as the shorter of \<open>losses\<close> and
  \<open>sentences\<close> has elements, the label at position \<open>i\<close> is the decision for the
  \<open>i\<close>-th loss and the \<open>i\<close>-th sentence, and the elements of the longer list beyond
  that length have no effect.
\<close>

theorem predict_length_and_order:
  "length (predict classifier tokenizer losses sentences threshold ood_label max_length) =
     min (length losses) (length sentences)
   \<and> (\<forall>i < min (length losses) (length sentences).
        predict classifier tokenizer losses sentences threshold ood_label max_length ! i =
          decision classifier tokenizer threshold ood_label max_length
            (losses ! i) (sentences ! i))
   \<and> predict classifier tokenizer losses sentences threshold ood_label max_length =
       predict classifier tokenizer
         (take (min (length losses) (length sentences)) losses)
         (take (min (length losses) (length sentences)) sentences)
         threshold ood_label max_length"
proof -
  have "zip losses sentences =
      zip (take (min (length losses) (length sentences)) losses)
          (take (min (length losses) (length sentences)) sentences)"
    by (simp add: list_eq_iff_nth_eq)
  then show ?thesis by (simp add: predict_eq)
qed

theorem predict_length_and_order_witness:
  "predict (\<lambda>x. 7) (\<lambda>s n. take n s) [Fin 1, Fin 3, NaN] [''a'', ''b''] (Fin 2) 9 4 = [7, 9]
   \<and> min (length [Fin 1, Fin 3, NaN]) (length [''a'', ''b'']) = 2"
  using predict_length_and_order
          [of "\<lambda>x. 7" "\<lambda>s n. take n s" "[Fin 1, Fin 3, NaN]" "[''a'', ''b'']" "Fin 2" 9 4]
  by (simp add: predict_def predict_preprocess_def)

lemmas fit_eval =
  fit_evt_models_robust_def fit_evt_models_robust_class_def fit_evt_models_robust_trimmed_def
  fit_evt_models_robust_try_def percentile_threshold_def percentile_lerp_def lerp_def
  fpr_percent_def scores_clean_of_def iqr_bounds_def ood_score_def
  radd_def rsub_def rmul_def rounded_def fl_sub_def fl_gt_def fl_ge_def
  predict_preprocess_def Let_def

section \<open>Structure of the robust fitter\<close>

lemma percentile_threshold_Inr:
  "percentile_threshold percentile cls a q tabs = Inr tabs' \<longleftrightarrow>
     (\<exists>p. percentile a q = Inr p \<and> tabs' = (fst tabs, (snd tabs)(cls \<mapsto> p)))"
  by (auto simp: percentile_threshold_def split: sum.splits)

lemma try_Inr:
  assumes "fit_evt_models_robust_try rnd pc G P fpr cls scores clean tabs = Inr tabs'"
  shows "(\<exists>t. snd tabs' = (snd tabs)(cls \<mapsto> t)) \<and>
         (fst tabs' = fst tabs \<or>
          (\<exists>ps. G (map uminus clean) = Inr ps \<and> params_ok ps \<and> fst tabs' = (fst tabs)(cls \<mapsto> ps)))"
  using assms
  unfolding fit_evt_models_robust_try_def Let_def params_ok_def
  by (auto split: sum.splits prod.splits if_splits simp: percentile_threshold_Inr)

lemma try_Inl:
  assumes "fit_evt_models_robust_try rnd pc G P fpr cls scores clean tabs = Inl (e, tabs')"
  shows "snd tabs' = snd tabs \<and>
         (fst tabs' = fst tabs \<or>
          (\<exists>ps. G (map uminus clean) = Inr ps \<and> params_ok ps \<and> fst tabs' = (fst tabs)(cls \<mapsto> ps)))"
  using assms
  unfolding fit_evt_models_robust_try_def Let_def params_ok_def
  by (auto split: sum.splits prod.splits if_splits simp: percentile_threshold_Inr)

lemma class_shape:
  assumes "fit_evt_models_robust_class rnd pc G P fpr cls scores tabs = Inr tabs'"
  shows "(\<exists>t. snd tabs' = (snd tabs)(cls \<mapsto> t)) \<and>
         (fst tabs' = fst tabs \<or> (\<exists>ps. params_ok ps \<and> fst tabs' = (fst tabs)(cls \<mapsto> ps)))"
  using assms
  unfolding fit_evt_models_robust_class_def fit_evt_models_robust_trimmed_def Let_def
  apply (auto split: sum.splits prod.splits if_splits simp: percentile_threshold_Inr dest!: try_Inr try_Inl)
  by blast

lemma class_frame:
  assumes "fit_evt_models_robust_class rnd pc G P fpr cls scores tabs = Inr tabs'" "c \<noteq> cls"
  shows "fst tabs' c = fst tabs c \<and> snd tabs' c = snd tabs c"
  using class_shape [OF assms(1)] assms(2) by auto

lemma loop_frame:
  "fit_evt_models_robust_loop rnd pc G P fpr items tabs = Inr tabs' \<Longrightarrow> c \<notin> fst ` set items
     \<Longrightarrow> fst tabs' c = fst tabs c \<and> snd tabs' c = snd tabs c"
proof (induction items arbitrary: tabs)
  case Nil
  then show ?case by simp
next
  case (Cons kv items)
  obtain k v where kv: "kv = (k, v)" by (cases kv)
  from Cons.prems(1) kv obtain tabs1 where
    step: "fit_evt_models_robust_class rnd pc G P fpr k v tabs = Inr tabs1" and
    rest: "fit_evt_models_robust_loop rnd pc G P fpr items tabs1 = Inr tabs'"
    by (auto split: sum.splits)
  from Cons.prems(2) kv have "c \<noteq> k" "c \<notin> fst ` set items" by auto
  with Cons.IH [OF rest] class_frame [OF step] show ?case by simp
qed

lemma loop_lookup:
  "fit_evt_models_robust_loop rnd pc G P fpr items tabs = Inr tabs' \<Longrightarrow> distinct (map fst items)
     \<Longrightarrow> (c, scores) \<in> set items
     \<Longrightarrow> \<exists>t0 t1. fit_evt_models_robust_class rnd pc G P fpr c scores t0 = Inr t1 \<and>
           fst t0 c = fst tabs c \<and> snd t0 c = snd tabs c \<and>
           fst tabs' c = fst t1 c \<and> snd tabs' c = snd t1 c"
proof (induction items arbitrary: tabs)
  case Nil
  then show ?case by simp
next
  case (Cons kv items)
  obtain k v where kv: "kv = (k, v)" by (cases kv)
  from Cons.prems(1) kv obtain tabs1 where
    step: "fit_evt_models_robust_class rnd pc G P fpr k v tabs = Inr tabs1" and
    rest: "fit_evt_models_robust_loop rnd pc G P fpr items tabs1 = Inr tabs'"
    by (auto split: sum.splits)
  from Cons.prems(2) kv have dk: "k \<notin> fst ` set items" and di: "distinct (map fst items)"
    by auto
  show ?case
  proof (cases "k = c")
    case True
    with dk have "(c, scores) \<notin> set items" by force
    with Cons.prems(3) kv True have "v = scores" by simp
    with step True loop_frame [OF rest, of c] dk show ?thesis by blast
  next
    case False
    with Cons.prems(3) kv have mem: "(c, scores) \<in> set items" by auto
    from Cons.IH [OF rest di mem] class_frame [OF step, of c] False
    show ?thesis by auto
  qed
qed

lemma append_score_keys:
  "map fst (append_score cls s kvs) =
     (if cls \<in> set (map fst kvs) then map fst kvs else map fst kvs @ [cls])"
  by (induction kvs) force+

lemma append_score_distinct:
  "distinct (map fst kvs) \<Longrightarrow> distinct (map fst (append_score cls s kvs))"
  by (simp add: append_score_keys)

lemma append_score_nonempty:
  "list_all (\<lambda>kv. snd kv \<noteq> []) kvs \<Longrightarrow> list_all (\<lambda>kv. snd kv \<noteq> []) (append_score cls s kvs)"
  by (induction kvs) auto

lemma group_invariant:
  "distinct (map fst acc) \<Longrightarrow> list_all (\<lambda>kv. snd kv \<noteq> []) acc
     \<Longrightarrow> distinct (map fst (fit_evt_models_robust_group cl tok rnd examples ml acc)) \<and>
         list_all (\<lambda>kv. snd kv \<noteq> []) (fit_evt_models_robust_group cl tok rnd examples ml acc)"
proof (induction examples arbitrary: acc)
  case Nil
  then show ?case by simp
next
  case (Cons ex examples)
  obtain loss sen cls where ex: "ex = (loss, sen, cls)" by (cases ex)
  show ?case
    using Cons.IH [OF Cons.prems] Cons.IH [OF append_score_distinct [OF Cons.prems(1)] append_score_nonempty [OF Cons.prems(2)]]
    unfolding ex by (simp add: Let_def split: npfloat.splits)
qed


lemma map_of_append_score:
  "map_of (append_score cls s kvs) =
     (map_of kvs)(cls \<mapsto> (case map_of kvs cls of None \<Rightarrow> [s] | Some v \<Rightarrow> v @ [s]))"
  by (induction kvs) (auto simp: fun_eq_iff)

lemma group_map_of:
  "distinct (map fst acc) \<Longrightarrow>
   map_of (fit_evt_models_robust_group cl tok rnd examples ml acc) c =
     (case map_of acc c of
        None \<Rightarrow> (if class_scores cl tok rnd ml c examples = [] then None
                  else Some (class_scores cl tok rnd ml c examples))
      | Some v \<Rightarrow> Some (v @ class_scores cl tok rnd ml c examples))"
proof (induction examples arbitrary: acc)
  case Nil
  then show ?case by (simp split: option.splits)
next
  case (Cons ex examples)
  obtain loss sen cls where ex: "ex = (loss, sen, cls)" by (cases ex)
  show ?case
    using Cons.IH [OF Cons.prems] Cons.IH [OF append_score_distinct [OF Cons.prems]]
    unfolding ex
    by (auto simp: Let_def map_of_append_score split: npfloat.splits option.splits)
qed

lemma group_class_scores:
  "(c, scores) \<in> set (fit_evt_models_robust_group cl tok rnd examples ml []) \<longleftrightarrow>
     scores = class_scores cl tok rnd ml c examples \<and> scores \<noteq> []"
proof -
  have d: "distinct (map fst (fit_evt_models_robust_group cl tok rnd examples ml []))"
    using group_invariant [of "[]" cl tok rnd examples ml] by simp
  have "(c, scores) \<in> set (fit_evt_models_robust_group cl tok rnd examples ml []) \<longleftrightarrow>
      map_of (fit_evt_models_robust_group cl tok rnd examples ml []) c = Some scores"
    using d by simp
  also have "\<dots> \<longleftrightarrow> scores = class_scores cl tok rnd ml c examples \<and> scores \<noteq> []"
    using group_map_of [of "[]" cl tok rnd examples ml c] by auto
  finally show ?thesis .
qed

lemma fit_robust_class_entry:
  assumes res: "fit_evt_models_robust cl tok rnd pc G P losses sentences classes ml fpr =
                  Inr (thresholds, evt_models)"
    and mem: "(c, scores) \<in> set (fit_evt_models_robust_group cl tok rnd
                                   (zip losses (zip sentences classes)) ml [])"
  shows "\<exists>t0 t1. fit_evt_models_robust_class rnd pc G P fpr c scores t0 = Inr t1 \<and>
           fst t0 c = None \<and> evt_models c = fst t1 c \<and> thresholds c = snd t1 c"
proof -
  let ?items = "fit_evt_models_robust_group cl tok rnd (zip losses (zip sentences classes)) ml []"
  from res have loop: "fit_evt_models_robust_loop rnd pc G P fpr ?items (Map.empty, Map.empty) =
      Inr (evt_models, thresholds)"
    by (auto simp: fit_evt_models_robust_def Let_def split: sum.splits)
  have d: "distinct (map fst ?items)"
    using group_invariant [of "[]" cl tok rnd "zip losses (zip sentences classes)" ml] by simp
  from loop_lookup [OF loop d mem] show ?thesis by auto
qed

lemma fit_robust_no_entry:
  assumes res: "fit_evt_models_robust cl tok rnd pc G P losses sentences classes ml fpr =
                  Inr (thresholds, evt_models)"
    and nomem: "c \<notin> fst ` set (fit_evt_models_robust_group cl tok rnd
                                   (zip losses (zip sentences classes)) ml [])"
  shows "evt_models c = None \<and> thresholds c = None"
proof -
  let ?items = "fit_evt_models_robust_group cl tok rnd (zip losses (zip sentences classes)) ml []"
  from res have loop: "fit_evt_models_robust_loop rnd pc G P fpr ?items (Map.empty, Map.empty) =
      Inr (evt_models, thresholds)"
    by (auto simp: fit_evt_models_robust_def Let_def split: sum.splits)
  from loop_frame [OF loop nomem] show ?thesis by simp
qed

lemma loop_models_ok:
  "fit_evt_models_robust_loop rnd pc G P fpr items tabs = Inr tabs'
     \<Longrightarrow> (\<And>c ps. fst tabs c = Some ps \<Longrightarrow> params_ok ps)
     \<Longrightarrow> fst tabs' c = Some ps \<Longrightarrow> params_ok ps"
proof (induction items arbitrary: tabs)
  case Nil
  then show ?case by simp
next
  case (Cons kv items)
  obtain k v where kv: "kv = (k, v)" by (cases kv)
  from Cons.prems(1) kv obtain tabs1 where
    step: "fit_evt_models_robust_class rnd pc G P fpr k v tabs = Inr tabs1" and
    rest: "fit_evt_models_robust_loop rnd pc G P fpr items tabs1 = Inr tabs'"
    by (auto split: sum.splits)
  have ok1: "params_ok ps'" if "fst tabs1 c' = Some ps'" for c' ps'
    using class_shape [OF step] that Cons.prems(2) [of c' ps']
    by (auto split: if_splits)
  from Cons.IH [OF rest ok1 Cons.prems(3)] show ?case .
qed

section \<open>The branches of an iteration\<close>

lemma class_small:
  assumes "fit_evt_models_robust_class rnd pc G P fpr c scores t0 = Inr t1" "length scores < 10"
  shows "fst t1 c = fst t0 c \<and> (\<exists>p. pc scores (Fin 95) = Inr p \<and> snd t1 c = Some p)"
  using assms
  by (auto simp: fit_evt_models_robust_class_def percentile_threshold_Inr)

lemma class_large:
  assumes "fit_evt_models_robust_class rnd pc G P fpr c scores t0 = Inr t1" "10 \<le> length scores"
  shows "\<exists>q1 q3. pc scores (Fin 25) = Inr q1 \<and> pc scores (Fin 75) = Inr q3 \<and>
           fit_evt_models_robust_trimmed rnd pc G P fpr c scores
             (scores_clean_of rnd scores q1 q3) t0 = Inr t1"
  using assms
  by (auto simp: fit_evt_models_robust_class_def split: sum.splits)

lemma trimmed_few:
  assumes "fit_evt_models_robust_trimmed rnd pc G P fpr c scores clean t0 = Inr t1"
    "length clean < 5"
  shows "fst t1 c = fst t0 c \<and> (\<exists>p. pc scores (Fin 95) = Inr p \<and> snd t1 c = Some p)"
  using assms
  by (auto simp: fit_evt_models_robust_trimmed_def percentile_threshold_Inr)

lemma trimmed_fit:
  assumes "5 \<le> length clean"
  shows "fit_evt_models_robust_trimmed rnd pc G P fpr c scores clean t0 =
     (case fit_evt_models_robust_try rnd pc G P fpr c scores clean t0 of
        Inr tabs' \<Rightarrow> Inr tabs'
      | Inl (e, tabs') \<Rightarrow> percentile_threshold pc c clean (fpr_percent rnd fpr) tabs')"
  using assms by (simp add: fit_evt_models_robust_trimmed_def)

lemma trimmed_rejected:
  assumes r: "fit_evt_models_robust_trimmed rnd pc G P fpr c scores clean t0 = Inr t1"
    and n: "5 \<le> length clean"
    and g: "G (map uminus clean) = Inr (shape, loc, scale)"
    and bad: "\<bar>shape\<bar> > 2 \<or> scale \<le> 0 \<or> scale > 10"
  shows "fst t1 c = fst t0 c \<and>
         (\<exists>p. pc clean (fpr_percent rnd fpr) = Inr p \<and> snd t1 c = Some p)"
  using r bad unfolding trimmed_fit [OF n] fit_evt_models_robust_try_def g
  by (auto simp: percentile_threshold_def split: sum.splits)





lemma fl_add_NaN: "fl_add x NaN = NaN" "fl_add NaN x = NaN"
  by (cases x; simp)+

lemma fl_mul_NaN: "fl_mul x NaN = NaN" "fl_mul NaN x = NaN"
  by (cases x; simp)+

lemma rounded_NaN: "rounded rnd NaN = NaN"
  by (simp add: rounded_def)

lemma rops_NaN:
  "radd rnd x NaN = NaN" "radd rnd NaN x = NaN"
  "rsub rnd x NaN = NaN" "rsub rnd NaN x = NaN"
  "rmul rnd x NaN = NaN" "rmul rnd NaN x = NaN"
  by (simp_all add: radd_def rsub_def rmul_def fl_sub_def fl_add_NaN fl_mul_NaN rounded_NaN)

lemma ood_score_nan:
  "isnan loss \<or> isnan max_prob \<Longrightarrow> ood_score rnd max_prob loss = NaN"
  by (cases loss; cases max_prob) (simp_all add: ood_score_def rops_NaN)

lemma lerp_exact: "lerp Fin a b t = Fin (a + (b - a) * t)"
  by (simp add: lerp_def Let_def rsub_def radd_def rmul_def rounded_def fl_sub_def
        algebra_simps)

lemma percentile_lerp_exact:
  "percentile_lerp Fin a (Fin q) =
     (if q < 0 \<or> 100 < q then Inl ValueError
      else if a = [] then Inl IndexError
      else Inr (Fin (exact_percentile a q)))"
  by (simp add: percentile_lerp_def exact_percentile_def lerp_exact Let_def)

lemma fpr_percent_exact: "fpr_percent Fin fpr = Fin (100 * (1 - fpr))"
  by (simp add: fpr_percent_def rsub_def rmul_def rounded_def fl_sub_def)

section \<open>Exact arithmetic\<close>

text \<open>
  The lemmas of this section are about the rounding \<open>Fin\<close>, that is, about runs in
  which no operation rounds or overflows. They say nothing about other roundings.
\<close>

lemma convex_between:
  fixes x y g lo hi :: real
  assumes "lo \<le> x" "x \<le> hi" "lo \<le> y" "y \<le> hi" "0 \<le> g" "g \<le> 1"
  shows "lo \<le> x + (y - x) * g \<and> x + (y - x) * g \<le> hi"
proof -
  have e: "x + (y - x) * g = (1 - g) * x + g * y" by (simp add: algebra_simps)
  have "(1 - g) * lo + g * lo \<le> (1 - g) * x + g * y"
    using assms by (intro add_mono mult_left_mono) auto
  moreover have "(1 - g) * x + g * y \<le> (1 - g) * hi + g * hi"
    using assms by (intro add_mono mult_left_mono) auto
  ultimately show ?thesis unfolding e by (simp add: algebra_simps)
qed

lemma exact_percentile_bounds:
  assumes "a \<noteq> []" "0 \<le> q" "q \<le> 100"
  shows "Min (set a) \<le> exact_percentile a q \<and> exact_percentile a q \<le> Max (set a)"
proof -
  define n where "n = length a"
  define v where "v = real (n - 1) * (q / 100)"
  define prev where "prev = nat \<lfloor>v\<rfloor>"
  define nxt where "nxt = min (prev + 1) (n - 1)"
  define g where "g = v - real prev"
  have npos: "0 < n" using assms(1) by (simp add: n_def)
  have v0: "0 \<le> v" using assms(2) by (simp add: v_def)
  have v1: "v \<le> real (n - 1)"
  proof -
    have "q / 100 \<le> 1" using assms(3) by simp
    then have "real (n - 1) * (q / 100) \<le> real (n - 1) * 1"
      by (intro mult_left_mono) auto
    then show ?thesis by (simp add: v_def)
  qed
  have fl: "real prev = of_int \<lfloor>v\<rfloor>" using v0 by (simp add: prev_def)
  have g0: "0 \<le> g" unfolding g_def fl by linarith
  have g1: "g \<le> 1" unfolding g_def fl by linarith
  have "\<lfloor>v\<rfloor> \<le> int (n - 1)" using v1 by (simp add: floor_le_iff) 
  then have pn: "prev < n" using npos by (simp add: prev_def)
  have nn: "nxt < n" using npos by (simp add: nxt_def)
  have len: "length (sort a) = n" by (simp add: n_def)
  have in1: "sort a ! prev \<in> set a" using pn len by (metis nth_mem set_sort)
  have in2: "sort a ! nxt \<in> set a" using nn len by (metis nth_mem set_sort)
  have b1: "Min (set a) \<le> sort a ! prev" "sort a ! prev \<le> Max (set a)"
    using in1 by simp_all
  have b2: "Min (set a) \<le> sort a ! nxt" "sort a ! nxt \<le> Max (set a)"
    using in2 by simp_all
  have eq: "exact_percentile a q = sort a ! prev + (sort a ! nxt - sort a ! prev) * g"
    by (simp add: exact_percentile_def Let_def n_def v_def prev_def nxt_def g_def)
  show ?thesis unfolding eq using convex_between [OF b1 b2 g0 g1] .
qed

lemma length_filter_sort: "length (filter P (sort (a::real list))) = length (filter P a)"
  by (simp add: filter_sort)

lemma count_from_sorted_range:
  fixes a :: "real list"
  assumes "hi < length a" "\<And>i. lo \<le> i \<Longrightarrow> i \<le> hi \<Longrightarrow> P (sort a ! i)"
  shows "hi + 1 - lo \<le> length (filter P a)"
proof -
  have sub: "{lo..hi} \<subseteq> {i. i < length (sort a) \<and> P (sort a ! i)}"
    using assms by auto
  have "card {lo..hi} \<le> card {i. i < length (sort a) \<and> P (sort a ! i)}"
    by (rule card_mono [OF _ sub]) simp
  also have "\<dots> = length (filter P (sort a))"
    by (rule length_filter_conv_card [symmetric])
  also have "\<dots> = length (filter P a)"
    by (rule length_filter_sort)
  finally show ?thesis by simp
qed

lemma sort_nth_mono:
  fixes a :: "real list"
  shows "i \<le> j \<Longrightarrow> j < length a \<Longrightarrow> sort a ! i \<le> sort a ! j"
  using sorted_nth_mono [of "sort a" i j] by simp

lemma quartile_indices:
  fixes m :: nat
  shows "nat \<lfloor>real m * (25 / 100)\<rfloor> = m div 4" "nat \<lfloor>real m * (75 / 100)\<rfloor> = (3 * m) div 4"
proof -
  have "real m * (25 / 100) = real m / real 4" by simp
  then show "nat \<lfloor>real m * (25 / 100)\<rfloor> = m div 4"
    by (simp only: floor_divide_of_nat_eq nat_int)
  have "real m * (75 / 100) = real (3 * m) / real 4" by simp
  then show "nat \<lfloor>real m * (75 / 100)\<rfloor> = (3 * m) div 4"
    by (simp only: floor_divide_of_nat_eq nat_int)
qed

lemma frac_quarter:
  fixes k :: nat
  shows "real k / 4 - real (k div 4) = real (k mod 4) / 4"
proof -
  have "k = 4 * (k div 4) + k mod 4" by simp
  then have "real k = 4 * real (k div 4) + real (k mod 4)"
    by (metis of_nat_add of_nat_mult of_nat_numeral)
  then have "real k / 4 = real (k div 4) + real (k mod 4) / 4"
    by (simp only: add_divide_distrib)
  then show ?thesis by linarith
qed

lemma exact_percentile_unfold:
  assumes "length scores = m + 1"
  shows "exact_percentile scores 25 =
           sort scores ! (m div 4)
           + (sort scores ! (min (m div 4 + 1) m) - sort scores ! (m div 4)) * (real (m mod 4) / 4)"
    and "exact_percentile scores 75 =
           sort scores ! ((3 * m) div 4)
           + (sort scores ! (min ((3 * m) div 4 + 1) m) - sort scores ! ((3 * m) div 4))
             * (real ((3 * m) mod 4) / 4)"
proof -
  have a: "real m * (25 / 100) - real (m div 4) = real (m mod 4) / 4"
    using frac_quarter [of m] by simp
  have b: "real m * (75 / 100) - real ((3 * m) div 4) = real ((3 * m) mod 4) / 4"
    using frac_quarter [of "3 * m"] by simp
  show "exact_percentile scores 25 =
           sort scores ! (m div 4)
           + (sort scores ! (min (m div 4 + 1) m) - sort scores ! (m div 4)) * (real (m mod 4) / 4)"
    unfolding exact_percentile_def Let_def length_sort assms
    by (simp only: add_diff_cancel_right' quartile_indices a)
  show "exact_percentile scores 75 =
           sort scores ! ((3 * m) div 4)
           + (sort scores ! (min ((3 * m) div 4 + 1) m) - sort scores ! ((3 * m) div 4))
             * (real ((3 * m) mod 4) / 4)"
    unfolding exact_percentile_def Let_def length_sort assms
    by (simp only: add_diff_cancel_right' quartile_indices b)
qed

lemma exact_trimmed_eq:
  "exact_trimmed scores =
     filter (\<lambda>s. exact_percentile scores 25
                    - 1.5 * (exact_percentile scores 75 - exact_percentile scores 25) \<le> s
               \<and> s \<le> exact_percentile scores 75
                    + 1.5 * (exact_percentile scores 75 - exact_percentile scores 25)) scores"
  by (simp add: exact_trimmed_def scores_clean_of_def iqr_bounds_def Let_def fl_ge_def
        rsub_def radd_def rmul_def rounded_def fl_sub_def)

text \<open>
  With exact arithmetic the outlier removal keeps at least five of ten or more scores:
  the scores between the two quartile positions of the sorted array lie inside the
  bounds, and for ten scores so does the one above the upper quartile. With overflow
  it can remove every score, as the run on \<open>big_scores\<close> below shows.
\<close>

lemma exact_trimmed_keeps_five:
  assumes n: "10 \<le> length scores"
  shows "5 \<le> length (exact_trimmed scores)"
proof -
  define arr where "arr = sort scores"
  define m where "m = length scores - 1"
  define p1 where "p1 = m div 4"
  define p3 where "p3 = (3 * m) div 4"
  define g1 where "g1 = real (m mod 4) / 4"
  define g3 where "g3 = real ((3 * m) mod 4) / 4"
  define q1 where "q1 = exact_percentile scores 25"
  define q3 where "q3 = exact_percentile scores 75"
  define d where "d = 1.5 * (q3 - q1)"
  define P where "P = (\<lambda>s. q1 - d \<le> s \<and> s \<le> q3 + d)"
  have de: "2 * d = 3 * q3 - 3 * q1" by (simp add: d_def)
  have m9: "9 \<le> m" and len: "length scores = m + 1" using n by (simp_all add: m_def)
  have p13: "p1 + 1 \<le> p3" "p3 \<le> m" "p1 + 1 \<le> m"
    using m9 by (simp_all add: p1_def p3_def)
  have mono: "arr ! i \<le> arr ! j" if "i \<le> j" "j \<le> m" for i j
    unfolding arr_def using sort_nth_mono [of i j scores] that len by simp
  have g1b: "0 \<le> g1" "g1 \<le> 1" by (simp_all add: g1_def)
  have g3b: "0 \<le> g3" "g3 \<le> 1" by (simp_all add: g3_def)
  have mn1: "min (p1 + 1) m = p1 + 1" using p13 by simp
  have q1e: "q1 = arr ! p1 + (arr ! (p1 + 1) - arr ! p1) * g1"
    using exact_percentile_unfold(1) [OF len] mn1
    by (simp add: q1_def arr_def p1_def g1_def)
  have q3e: "q3 = arr ! p3 + (arr ! (min (p3 + 1) m) - arr ! p3) * g3"
    using exact_percentile_unfold(2) [OF len]
    by (simp add: q3_def arr_def p3_def g3_def)
  have a1: "arr ! p1 \<le> arr ! (p1 + 1)" using mono [of p1 "p1 + 1"] p13 by simp
  have a3: "arr ! p3 \<le> arr ! (min (p3 + 1) m)" using mono [of p3 "min (p3 + 1) m"] p13 by simp
  have q1le: "q1 \<le> arr ! (p1 + 1)"
    unfolding q1e using convex_between [OF order_refl a1 a1 order_refl g1b] by simp
  have q3ge: "arr ! p3 \<le> q3"
    unfolding q3e using convex_between [OF order_refl a3 a3 order_refl g3b] by simp
  have mid: "arr ! (p1 + 1) \<le> arr ! p3" using mono [of "p1 + 1" p3] p13 by simp
  have inner: "P (arr ! i)" if "p1 + 1 \<le> i" "i \<le> p3" for i
  proof -
    have "arr ! (p1 + 1) \<le> arr ! i" "arr ! i \<le> arr ! p3"
      using mono [of "p1 + 1" i] mono [of i p3] that p13 by simp_all
    with q1le q3ge mid de show ?thesis unfolding P_def by (intro conjI) linarith+
  qed
  have "5 \<le> length (filter P scores)"
  proof (cases "m = 9")
    case False
    with m9 have "10 \<le> m" by simp
    then have five: "5 \<le> p3 + 1 - (p1 + 1)" by (simp add: p1_def p3_def)
    have "p3 + 1 - (p1 + 1) \<le> length (filter P scores)"
      using count_from_sorted_range [of p3 scores "p1 + 1" P] inner p13 len
      by (simp add: arr_def)
    with five show ?thesis by linarith
  next
    case True
    then have idx: "p1 = 2" "p3 = 6" "g3 = 3 / 4" "min (p3 + 1) m = 7"
      by (simp_all add: p1_def p3_def g3_def)
    have q3v: "4 * q3 = arr ! 6 + 3 * arr ! 7"
      using q3e True unfolding idx(2) idx(3) by (simp add: field_simps)
    have a67: "arr ! 6 \<le> arr ! 7" using mono [of 6 7] True by simp
    have q16: "q1 \<le> arr ! 6" using q1le mid unfolding idx by simp
    have P7: "P (arr ! 7)"
      unfolding P_def using q3v a67 q16 de by (intro conjI) linarith+
    have all: "P (arr ! i)" if "3 \<le> i" "i \<le> 7" for i
    proof (cases "i = 7")
      case True
      with P7 show ?thesis by simp
    next
      case False
      with that inner [of i] idx show ?thesis by simp
    qed
    have "7 + 1 - 3 \<le> length (filter P scores)"
      using count_from_sorted_range [of 7 scores 3 P] all len True
      by (simp add: arr_def)
    then show ?thesis by simp
  qed
  then show ?thesis
    by (simp add: exact_trimmed_eq P_def d_def q1_def q3_def)
qed

lemma exact_percentile_result:
  assumes "percentile_lerp Fin a (Fin q) = Inr p"
  shows "\<exists>r. p = Fin r \<and> r = exact_percentile a q \<and> Min (set a) \<le> r \<and> r \<le> Max (set a)
           \<and> a \<noteq> [] \<and> 0 \<le> q \<and> q \<le> 100"
proof -
  from assms have c: "0 \<le> q" "q \<le> 100" "a \<noteq> []" and p: "p = Fin (exact_percentile a q)"
    by (auto simp: percentile_lerp_exact split: if_splits)
  from exact_percentile_bounds [OF c(3) c(1) c(2)] c p show ?thesis by simp
qed

lemma scores_clean_exact:
  "scores_clean_of Fin scores (Fin (exact_percentile scores 25))
     (Fin (exact_percentile scores 75)) = exact_trimmed scores"
  by (simp add: exact_trimmed_def)




lemma exact_class_returns:
  assumes "scores \<noteq> []" "0 \<le> fpr" "fpr \<le> 1"
  shows "\<exists>t1. fit_evt_models_robust_class Fin (percentile_lerp Fin) G P fpr c scores t0 = Inr t1"
proof (cases "length scores < 10")
  case True
  with assms(1) show ?thesis
    by (simp add: fit_evt_models_robust_class_def percentile_threshold_def percentile_lerp_exact)
next
  case False
  then have n: "10 \<le> length scores" by simp
  have n5: "5 \<le> length (exact_trimmed scores)" by (rule exact_trimmed_keeps_five [OF n])
  then have ne: "exact_trimmed scores \<noteq> []" by auto
  have pt: "\<And>tabs. percentile_threshold (percentile_lerp Fin) c (exact_trimmed scores)
        (fpr_percent Fin fpr) tabs =
      Inr (fst tabs, (snd tabs)(c \<mapsto>
        Fin (exact_percentile (exact_trimmed scores) (100 * (1 - fpr)))))"
    using ne assms(2,3)
    by (simp add: percentile_threshold_def percentile_lerp_exact fpr_percent_exact)
  have cls: "fit_evt_models_robust_class Fin (percentile_lerp Fin) G P fpr c scores t0 =
      fit_evt_models_robust_trimmed Fin (percentile_lerp Fin) G P fpr c scores
        (exact_trimmed scores) t0"
    using n assms(1)
    by (simp add: fit_evt_models_robust_class_def percentile_lerp_exact scores_clean_exact)
  show ?thesis
  proof (cases "fit_evt_models_robust_try Fin (percentile_lerp Fin) G P fpr c scores
                  (exact_trimmed scores) t0")
    case (Inl et)
    obtain e tabs' where et: "et = (e, tabs')" by (cases et)
    show ?thesis
      unfolding cls trimmed_fit [OF n5] Inl et by (simp only: sum.case prod.case pt) blast
  next
    case (Inr tabs')
    show ?thesis
      unfolding cls trimmed_fit [OF n5] Inr by simp
  qed
qed

lemma exact_loop_returns:
  assumes "list_all (\<lambda>kv. snd kv \<noteq> []) items" "0 \<le> fpr" "fpr \<le> 1"
  shows "\<exists>tabs'. fit_evt_models_robust_loop Fin (percentile_lerp Fin) G P fpr items tabs =
           Inr tabs'"
  using assms(1)
proof (induction items arbitrary: tabs)
  case Nil
  then show ?case by simp
next
  case (Cons kv items)
  obtain k v where kv: "kv = (k, v)" by (cases kv)
  with Cons.prems have "v \<noteq> []" by simp
  from exact_class_returns [OF this assms(2,3), where G = G and P = P and c = k and ?t0.0 = tabs]
  obtain t1 where "fit_evt_models_robust_class Fin (percentile_lerp Fin) G P fpr k v tabs =
      Inr t1" by blast
  with Cons.IH [of t1] Cons.prems kv show ?case by simp
qed

text \<open>
  With exact arithmetic and a false positive rate in \<open>[0, 1]\<close> no percentile is out of
  range, and the function returns its two dictionaries.
\<close>

lemma fit_evt_models_robust_returns:
  assumes "0 \<le> fpr" "fpr \<le> 1"
  shows "\<exists>thresholds evt_models.
           fit_evt_models_robust cl tok Fin (percentile_lerp Fin) G P losses sentences classes
             ml fpr = Inr (thresholds, evt_models)"
proof -
  have "list_all (\<lambda>kv. snd kv \<noteq> [])
      (fit_evt_models_robust_group cl tok Fin (zip losses (zip sentences classes)) ml [])"
    using group_invariant [of "[]" cl tok Fin "zip losses (zip sentences classes)" ml] by simp
  from exact_loop_returns [OF this assms, where G = G and P = P
      and tabs = "(Map.empty, Map.empty)"]
  obtain tabs' where "fit_evt_models_robust_loop Fin (percentile_lerp Fin) G P fpr
      (fit_evt_models_robust_group cl tok Fin (zip losses (zip sentences classes)) ml [])
      (Map.empty, Map.empty) = Inr tabs'" by blast
  then show ?thesis
    by (cases tabs') (simp add: fit_evt_models_robust_def Let_def)
qed

text \<open>
  With exact arithmetic the fit is run for every class of at least ten scores, so a
  rejected fit gives the percentile threshold without a condition on the trimmed
  scores.
\<close>

lemma exact_model_rejected:
  assumes res: "fit_evt_models_robust cl tok Fin (percentile_lerp Fin) G P losses sentences
                  classes ml fpr = Inr (thresholds, evt_models)"
    and mem: "(c, scores) \<in> set (fit_evt_models_robust_group cl tok Fin
                                   (zip losses (zip sentences classes)) ml [])"
    and n: "10 \<le> length scores"
    and g: "G (map uminus (exact_trimmed scores)) = Inr (shape, loc, scale)"
    and bad: "\<bar>shape\<bar> > 2 \<or> scale \<le> 0 \<or> scale > 10"
  shows "evt_models c = None
       \<and> thresholds c = Some (Fin (exact_percentile (exact_trimmed scores) (100 * (1 - fpr))))"
proof -
  from fit_robust_class_entry [OF res mem] obtain t0 t1 where
    st: "fit_evt_models_robust_class Fin (percentile_lerp Fin) G P fpr c scores t0 = Inr t1" and
    e: "fst t0 c = None" "evt_models c = fst t1 c" "thresholds c = snd t1 c"
    by blast
  from class_large [OF st n] obtain q1 q3 where
    q: "percentile_lerp Fin scores (Fin 25) = Inr q1"
      "percentile_lerp Fin scores (Fin 75) = Inr q3" and
    tr: "fit_evt_models_robust_trimmed Fin (percentile_lerp Fin) G P fpr c scores
           (scores_clean_of Fin scores q1 q3) t0 = Inr t1"
    by blast
  from exact_percentile_result [OF q(1)] exact_percentile_result [OF q(2)]
  have qe: "q1 = Fin (exact_percentile scores 25)" "q3 = Fin (exact_percentile scores 75)"
    by auto
  have cl: "scores_clean_of Fin scores q1 q3 = exact_trimmed scores"
    unfolding qe by (rule scores_clean_exact)
  have n5: "5 \<le> length (exact_trimmed scores)" by (rule exact_trimmed_keeps_five [OF n])
  from trimmed_rejected [OF tr [unfolded cl] n5 g bad] obtain p where
    p: "fst t1 c = fst t0 c"
      "percentile_lerp Fin (exact_trimmed scores) (fpr_percent Fin fpr) = Inr p"
      "snd t1 c = Some p"
    by blast
  from exact_percentile_result [OF p(2) [unfolded fpr_percent_exact]] p e
  show ?thesis by auto
qed

section \<open>Properties of the robust fitter\<close>

text \<open>
  Claim C1. Every model recorded in the returned \<open>evt_models\<close> has
  \<open>|shape| \<le> 2\<close>, \<open>scale > 0\<close> and \<open>scale \<le> 10\<close>. Whenever the fit of a class
  is run, on at least five trimmed scores of a class with at least ten scores, and
  returns parameters that violate one of these bounds, no model is recorded for the
  class and its threshold is the \<open>100 * (1 - fpr)\<close> percentile of its trimmed scores.
  This holds for every rounding and every percentile function.
\<close>

theorem fit_evt_models_robust_model_bounds:
  assumes res: "fit_evt_models_robust cl tok rnd pc G P losses sentences classes ml fpr =
                  Inr (thresholds, evt_models)"
  shows "(\<forall>c shape loc scale. evt_models c = Some (shape, loc, scale) \<longrightarrow>
            \<bar>shape\<bar> \<le> 2 \<and> 0 < scale \<and> scale \<le> 10)
       \<and> (\<forall>c scores q1 q3 shape loc scale.
            (c, scores) \<in> set (fit_evt_models_robust_group cl tok rnd
                                 (zip losses (zip sentences classes)) ml [])
            \<and> 10 \<le> length scores
            \<and> pc scores (Fin 25) = Inr q1 \<and> pc scores (Fin 75) = Inr q3
            \<and> 5 \<le> length (scores_clean_of rnd scores q1 q3)
            \<and> G (map uminus (scores_clean_of rnd scores q1 q3)) = Inr (shape, loc, scale)
            \<and> (\<bar>shape\<bar> > 2 \<or> scale \<le> 0 \<or> scale > 10) \<longrightarrow>
            evt_models c = None
            \<and> (\<exists>p. pc (scores_clean_of rnd scores q1 q3) (fpr_percent rnd fpr) = Inr p
                   \<and> thresholds c = Some p))"
proof (intro conjI allI impI)
  let ?items = "fit_evt_models_robust_group cl tok rnd (zip losses (zip sentences classes)) ml []"
  from res have loop: "fit_evt_models_robust_loop rnd pc G P fpr ?items (Map.empty, Map.empty) =
      Inr (evt_models, thresholds)"
    by (auto simp: fit_evt_models_robust_def Let_def split: sum.splits)
  fix c shape loc scale
  assume "evt_models c = Some (shape, loc, scale)"
  then have "params_ok (shape, loc, scale)"
    using loop_models_ok [OF loop, of c "(shape, loc, scale)"] by simp
  then show "\<bar>shape\<bar> \<le> 2" "0 < scale" "scale \<le> 10" by (simp_all add: params_ok_def)
next
  fix c scores q1 q3 shape loc scale
  assume a: "(c, scores) \<in> set (fit_evt_models_robust_group cl tok rnd
                                 (zip losses (zip sentences classes)) ml [])
            \<and> 10 \<le> length scores
            \<and> pc scores (Fin 25) = Inr q1 \<and> pc scores (Fin 75) = Inr q3
            \<and> 5 \<le> length (scores_clean_of rnd scores q1 q3)
            \<and> G (map uminus (scores_clean_of rnd scores q1 q3)) = Inr (shape, loc, scale)
            \<and> (\<bar>shape\<bar> > 2 \<or> scale \<le> 0 \<or> scale > 10)"
  from fit_robust_class_entry [OF res] a obtain t0 t1 where
    st: "fit_evt_models_robust_class rnd pc G P fpr c scores t0 = Inr t1" and
    e: "fst t0 c = None" "evt_models c = fst t1 c" "thresholds c = snd t1 c"
    by blast
  from class_large [OF st] a have
    tr: "fit_evt_models_robust_trimmed rnd pc G P fpr c scores
           (scores_clean_of rnd scores q1 q3) t0 = Inr t1"
    by auto
  from trimmed_rejected [OF tr] a
  have r: "fst t1 c = fst t0 c"
    "\<exists>p. pc (scores_clean_of rnd scores q1 q3) (fpr_percent rnd fpr) = Inr p \<and> snd t1 c = Some p"
    by blast+
  show "evt_models c = None" using r e by simp
  show "\<exists>p. pc (scores_clean_of rnd scores q1 q3) (fpr_percent rnd fpr) = Inr p
           \<and> thresholds c = Some p"
    using r e by simp
qed

theorem fit_evt_models_robust_model_bounds_witness:
  "fit_evt_models_robust ex_classifier ex_tokenizer Fin (percentile_lerp Fin)
     (\<lambda>xs. Inr (3, 0, 1)) (\<lambda>q shape loc scale. Fin (- loc))
     ex_losses ex_sentences ex_classes 16 0.05
   = Inr ([0 \<mapsto> Fin (191 / 20)], Map.empty)
   \<and> fit_evt_models_robust ex_classifier ex_tokenizer Fin (percentile_lerp Fin)
     (\<lambda>xs. Inr (0, 5, 1)) (\<lambda>q shape loc scale. Fin (- loc))
     ex_losses ex_sentences ex_classes 16 0.05
   = Inr ([0 \<mapsto> Fin 5], [0 \<mapsto> (0, 5, 1)])
   \<and> (0, ex_scores) \<in> set (fit_evt_models_robust_group ex_classifier ex_tokenizer Fin
         (zip ex_losses (zip ex_sentences ex_classes)) 16 [])
   \<and> 10 \<le> length ex_scores
   \<and> percentile_lerp Fin ex_scores (Fin 25) = Inr (Fin (13 / 4))
   \<and> percentile_lerp Fin ex_scores (Fin 75) = Inr (Fin (31 / 4))
   \<and> scores_clean_of Fin ex_scores (Fin (13 / 4)) (Fin (31 / 4)) = ex_scores
   \<and> 5 \<le> length (scores_clean_of Fin ex_scores (Fin (13 / 4)) (Fin (31 / 4)))
   \<and> \<bar>3::real\<bar> > 2
   \<and> percentile_lerp Fin ex_scores (fpr_percent Fin 0.05) = Inr (Fin (191 / 20))
   \<and> \<bar>0::real\<bar> \<le> 2 \<and> (0::real) < 1 \<and> (1::real) \<le> 10"
proof -
  have r1: "fit_evt_models_robust ex_classifier ex_tokenizer Fin (percentile_lerp Fin)
     (\<lambda>xs. Inr (3, 0, 1)) (\<lambda>q shape loc scale. Fin (- loc))
     ex_losses ex_sentences ex_classes 16 0.05
   = Inr ([0 \<mapsto> Fin (191 / 20)], Map.empty)"
    by (simp add: fit_eval)
  have r2: "fit_evt_models_robust ex_classifier ex_tokenizer Fin (percentile_lerp Fin)
     (\<lambda>xs. Inr (0, 5, 1)) (\<lambda>q shape loc scale. Fin (- loc))
     ex_losses ex_sentences ex_classes 16 0.05
   = Inr ([0 \<mapsto> Fin 5], [0 \<mapsto> (0, 5, 1)])"
    by (simp add: fit_eval)
  show ?thesis
    using fit_evt_models_robust_model_bounds [OF r1] fit_evt_models_robust_model_bounds [OF r2]
    by (simp add: fit_eval r1 r2)
qed

text \<open>
  Claim C2. For a class with fewer than ten valid scores no model is recorded and the
  threshold is the 95th percentile of its untrimmed scores.
\<close>

theorem fit_evt_models_robust_small_class:
  assumes res: "fit_evt_models_robust cl tok rnd pc G P losses sentences classes ml fpr =
                  Inr (thresholds, evt_models)"
    and mem: "(c, scores) \<in> set (fit_evt_models_robust_group cl tok rnd
                                   (zip losses (zip sentences classes)) ml [])"
    and small: "length scores < 10"
  shows "evt_models c = None
       \<and> (\<exists>p. pc scores (Fin 95) = Inr p \<and> thresholds c = Some p)"
proof -
  from fit_robust_class_entry [OF res mem] obtain t0 t1 where
    st: "fit_evt_models_robust_class rnd pc G P fpr c scores t0 = Inr t1" and
    e: "fst t0 c = None" "evt_models c = fst t1 c" "thresholds c = snd t1 c"
    by blast
  from class_small [OF st small] e show ?thesis by simp
qed

theorem fit_evt_models_robust_small_class_witness:
  "fit_evt_models_robust ex_classifier ex_tokenizer Fin (percentile_lerp Fin)
     (\<lambda>xs. Inr (0, 5, 1)) (\<lambda>q shape loc scale. Fin (- loc))
     [Fin 2, Fin 4] [''a'', ''b''] [1, 1::nat] 16 0.05
   = Inr ([1 \<mapsto> Fin (39 / 20)], Map.empty)
   \<and> (1, [1, 2]) \<in> set (fit_evt_models_robust_group ex_classifier ex_tokenizer Fin
         (zip [Fin 2, Fin 4] (zip [''a'', ''b''] [1, 1::nat])) 16 [])
   \<and> length [1, 2::real] < 10
   \<and> percentile_lerp Fin [1, 2] (Fin 95) = Inr (Fin (39 / 20))"
proof -
  have r: "fit_evt_models_robust ex_classifier ex_tokenizer Fin (percentile_lerp Fin)
     (\<lambda>xs. Inr (0, 5, 1)) (\<lambda>q shape loc scale. Fin (- loc))
     [Fin 2, Fin 4] [''a'', ''b''] [1, 1::nat] 16 0.05
   = Inr ([1 \<mapsto> Fin (39 / 20)], Map.empty)"
    by (simp add: fit_eval)
  have m: "(1, [1, 2]) \<in> set (fit_evt_models_robust_group ex_classifier ex_tokenizer Fin
         (zip [Fin 2, Fin 4] (zip [''a'', ''b''] [1, 1::nat])) 16 [])"
    by (simp add: fit_eval)
  show ?thesis
    using fit_evt_models_robust_small_class [OF r m] r m
    by (simp add: fit_eval)
qed

text \<open>
  Claim C3. For a class with at least ten valid scores, \<open>Q1\<close> and \<open>Q3\<close> are the
  25th and 75th percentiles of its scores, the bounds are \<open>Q1 - 1.5 * IQR\<close> and
  \<open>Q3 + 1.5 * IQR\<close> as the float arithmetic gives them, and the rest of the
  iteration runs on exactly the scores inside the bounds, in their order. If fewer
  than five scores are left, no model is recorded for the class and its threshold is
  the 95th percentile of the untrimmed scores.
\<close>

theorem fit_evt_models_robust_trimming:
  assumes res: "fit_evt_models_robust cl tok rnd pc G P losses sentences classes ml fpr =
                  Inr (thresholds, evt_models)"
    and mem: "(c, scores) \<in> set (fit_evt_models_robust_group cl tok rnd
                                   (zip losses (zip sentences classes)) ml [])"
    and n: "10 \<le> length scores"
  shows "\<exists>q1 q3 iqr lower_bound upper_bound scores_clean.
           pc scores (Fin 25) = Inr q1 \<and> pc scores (Fin 75) = Inr q3
         \<and> iqr = rsub rnd q3 q1
         \<and> lower_bound = rsub rnd q1 (rmul rnd (Fin 1.5) iqr)
         \<and> upper_bound = radd rnd q3 (rmul rnd (Fin 1.5) iqr)
         \<and> scores_clean =
             filter (\<lambda>s. fl_le lower_bound (Fin s) \<and> fl_le (Fin s) upper_bound) scores
         \<and> (\<exists>t0 t1. fst t0 c = None
               \<and> fit_evt_models_robust_trimmed rnd pc G P fpr c scores scores_clean t0 = Inr t1
               \<and> evt_models c = fst t1 c \<and> thresholds c = snd t1 c)
         \<and> (length scores_clean < 5 \<longrightarrow>
               evt_models c = None
               \<and> (\<exists>p. pc scores (Fin 95) = Inr p \<and> thresholds c = Some p))"
proof -
  from fit_robust_class_entry [OF res mem] obtain t0 t1 where
    st: "fit_evt_models_robust_class rnd pc G P fpr c scores t0 = Inr t1" and
    e: "fst t0 c = None" "evt_models c = fst t1 c" "thresholds c = snd t1 c"
    by blast
  from class_large [OF st n] obtain q1 q3 where
    q: "pc scores (Fin 25) = Inr q1" "pc scores (Fin 75) = Inr q3" and
    tr: "fit_evt_models_robust_trimmed rnd pc G P fpr c scores
           (scores_clean_of rnd scores q1 q3) t0 = Inr t1"
    by blast
  define iqr where "iqr = rsub rnd q3 q1"
  define lower_bound where "lower_bound = rsub rnd q1 (rmul rnd (Fin 1.5) iqr)"
  define upper_bound where "upper_bound = radd rnd q3 (rmul rnd (Fin 1.5) iqr)"
  define scores_clean where "scores_clean =
      filter (\<lambda>s. fl_le lower_bound (Fin s) \<and> fl_le (Fin s) upper_bound) scores"
  have sc: "scores_clean_of rnd scores q1 q3 = scores_clean"
    by (simp add: scores_clean_of_def iqr_bounds_def Let_def fl_ge_def scores_clean_def
          lower_bound_def upper_bound_def iqr_def)
  have few: "evt_models c = None \<and> (\<exists>p. pc scores (Fin 95) = Inr p \<and> thresholds c = Some p)"
    if "length scores_clean < 5"
    using trimmed_few [OF tr] that e sc by simp
  show ?thesis
    using q tr e few sc iqr_def lower_bound_def upper_bound_def scores_clean_def by blast
qed

theorem fit_evt_models_robust_trimming_witness:
  "fit_evt_models_robust big_classifier ex_tokenizer overflow32 (percentile_lerp overflow32)
     (\<lambda>xs. Inr (0, 5, 1)) (\<lambda>q shape loc scale. Fin (- loc))
     big_losses big_sentences ex_classes 16 0.05
   = Inr ([0 \<mapsto> Fin (10 ^ 38)], Map.empty)
   \<and> (0, big_scores) \<in> set (fit_evt_models_robust_group big_classifier ex_tokenizer
         overflow32 (zip big_losses (zip big_sentences ex_classes)) 16 [])
   \<and> 10 \<le> length big_scores
   \<and> percentile_lerp overflow32 big_scores (Fin 25) = Inr PInf
   \<and> percentile_lerp overflow32 big_scores (Fin 75) = Inr (Fin (10 ^ 38))
   \<and> rsub overflow32 (Fin (10 ^ 38)) PInf = NInf
   \<and> rsub overflow32 PInf (rmul overflow32 (Fin 1.5) NInf) = PInf
   \<and> radd overflow32 (Fin (10 ^ 38)) (rmul overflow32 (Fin 1.5) NInf) = NInf
   \<and> filter (\<lambda>s. fl_le PInf (Fin s) \<and> fl_le (Fin s) NInf) big_scores = []
   \<and> length ([]::real list) < 5
   \<and> percentile_lerp overflow32 big_scores (Fin 95) = Inr (Fin (10 ^ 38))
   \<and> fit_evt_models_robust ex_classifier ex_tokenizer Fin (percentile_lerp Fin)
     (\<lambda>xs. Inl FitFailure) (\<lambda>q shape loc scale. Fin (- loc))
     [Fin 2, Fin 4, Fin 6, Fin 8, Fin 10, Fin 12, Fin 14, Fin 16, Fin 18, Fin 200]
     ex_sentences ex_classes 16 0.05
   = Inr ([0 \<mapsto> Fin (43 / 5)], Map.empty)
   \<and> (0, [1, 2, 3, 4, 5, 6, 7, 8, 9, 100]) \<in> set (fit_evt_models_robust_group ex_classifier
         ex_tokenizer Fin
         (zip [Fin 2, Fin 4, Fin 6, Fin 8, Fin 10, Fin 12, Fin 14, Fin 16, Fin 18, Fin 200]
            (zip ex_sentences ex_classes)) 16 [])
   \<and> percentile_lerp Fin [1, 2, 3, 4, 5, 6, 7, 8, 9, 100] (Fin 25) = Inr (Fin (13 / 4))
   \<and> percentile_lerp Fin [1, 2, 3, 4, 5, 6, 7, 8, 9, 100] (Fin 75) = Inr (Fin (31 / 4))
   \<and> rsub Fin (Fin (13 / 4)) (rmul Fin (Fin 1.5) (rsub Fin (Fin (31 / 4)) (Fin (13 / 4))))
        = Fin (- (7 / 2))
   \<and> radd Fin (Fin (31 / 4)) (rmul Fin (Fin 1.5) (rsub Fin (Fin (31 / 4)) (Fin (13 / 4))))
        = Fin (29 / 2)
   \<and> filter (\<lambda>s. fl_le (Fin (- (7 / 2))) (Fin s) \<and> fl_le (Fin s) (Fin (29 / 2)))
        [1, 2, 3, 4, 5, 6, 7, 8, 9, 100::real] = [1, 2, 3, 4, 5, 6, 7, 8, 9]"
proof -
  have r: "fit_evt_models_robust big_classifier ex_tokenizer overflow32
     (percentile_lerp overflow32) (\<lambda>xs. Inr (0, 5, 1)) (\<lambda>q shape loc scale. Fin (- loc))
     big_losses big_sentences ex_classes 16 0.05
   = Inr ([0 \<mapsto> Fin (10 ^ 38)], Map.empty)"
    by (simp add: fit_eval overflow32_def)
  have m: "(0, big_scores) \<in> set (fit_evt_models_robust_group big_classifier ex_tokenizer
         overflow32 (zip big_losses (zip big_sentences ex_classes)) 16 [])"
    by (simp add: fit_eval overflow32_def)
  have n: "10 \<le> length big_scores" by simp
  have r': "fit_evt_models_robust ex_classifier ex_tokenizer Fin (percentile_lerp Fin)
     (\<lambda>xs. Inl FitFailure) (\<lambda>q shape loc scale. Fin (- loc))
     [Fin 2, Fin 4, Fin 6, Fin 8, Fin 10, Fin 12, Fin 14, Fin 16, Fin 18, Fin 200]
     ex_sentences ex_classes 16 0.05
   = Inr ([0 \<mapsto> Fin (43 / 5)], Map.empty)"
    by (simp add: fit_eval)
  have m': "(0, [1, 2, 3, 4, 5, 6, 7, 8, 9, 100]) \<in> set (fit_evt_models_robust_group
         ex_classifier ex_tokenizer Fin
         (zip [Fin 2, Fin 4, Fin 6, Fin 8, Fin 10, Fin 12, Fin 14, Fin 16, Fin 18, Fin 200]
            (zip ex_sentences ex_classes)) 16 [])"
    by (simp add: fit_eval)
  have n': "10 \<le> length [1, 2, 3, 4, 5, 6, 7, 8, 9, 100::real]" by simp
  have ev: "percentile_lerp overflow32 big_scores (Fin 25) = Inr PInf"
    "percentile_lerp overflow32 big_scores (Fin 75) = Inr (Fin (10 ^ 38))"
    "rsub overflow32 (Fin (10 ^ 38)) PInf = NInf"
    "rsub overflow32 PInf (rmul overflow32 (Fin 1.5) NInf) = PInf"
    "radd overflow32 (Fin (10 ^ 38)) (rmul overflow32 (Fin 1.5) NInf) = NInf"
    "filter (\<lambda>s. fl_le PInf (Fin s) \<and> fl_le (Fin s) NInf) big_scores = []"
    "percentile_lerp overflow32 big_scores (Fin 95) = Inr (Fin (10 ^ 38))"
    by (simp_all add: fit_eval overflow32_def)
  have ev': "percentile_lerp Fin [1, 2, 3, 4, 5, 6, 7, 8, 9, 100] (Fin 25) = Inr (Fin (13 / 4))"
    "percentile_lerp Fin [1, 2, 3, 4, 5, 6, 7, 8, 9, 100] (Fin 75) = Inr (Fin (31 / 4))"
    "rsub Fin (Fin (13 / 4)) (rmul Fin (Fin 1.5) (rsub Fin (Fin (31 / 4)) (Fin (13 / 4))))
        = Fin (- (7 / 2))"
    "radd Fin (Fin (31 / 4)) (rmul Fin (Fin 1.5) (rsub Fin (Fin (31 / 4)) (Fin (13 / 4))))
        = Fin (29 / 2)"
    "filter (\<lambda>s. fl_le (Fin (- (7 / 2))) (Fin s) \<and> fl_le (Fin s) (Fin (29 / 2)))
        [1, 2, 3, 4, 5, 6, 7, 8, 9, 100::real] = [1, 2, 3, 4, 5, 6, 7, 8, 9]"
    by (simp_all add: fit_eval)
  show ?thesis
    using fit_evt_models_robust_trimming [OF r m n] fit_evt_models_robust_trimming [OF r' m' n']
    by (simp only: r m r' m' ev ev') simp
qed




text \<open>
  Claim C7 as stated fails: with a NaN loss, and with a NaN class probability, the
  robust fitter returns normally with no score recorded, and the first loop of
  \<open>fit_evt_models\<close> records the NaN score. No exception is raised.
\<close>

theorem fit_evt_models_robust_skips_nan_counterexample:
  "fit_evt_models_robust (\<lambda>i. Fin (9 / 10)) ex_tokenizer Fin (percentile_lerp Fin)
     (\<lambda>xs. Inl FitFailure) (\<lambda>q shape loc scale. Fin (- loc)) [NaN] [''a''] [0::nat] 16 0.05
   = Inr (Map.empty, Map.empty)
   \<and> fit_evt_models_robust (\<lambda>i. NaN) ex_tokenizer Fin (percentile_lerp Fin)
     (\<lambda>xs. Inl FitFailure) (\<lambda>q shape loc scale. Fin (- loc)) [Fin 1] [''a''] [0::nat] 16 0.05
   = Inr (Map.empty, Map.empty)
   \<and> fit_evt_models_group (\<lambda>i. Fin (9 / 10)) ex_tokenizer Fin [(NaN, ''a'', 0::nat)] 16 []
   = [(0, [NaN])]"
  by (simp add: fit_eval)

text \<open>
  Claim C7, amended. An example whose loss or maximal class probability is NaN is
  skipped by the first loop of \<open>fit_evt_models_robust\<close>: the loop and the whole
  function give the same result as without the example, and the example raises no
  exception. The first loop of \<open>fit_evt_models\<close> records the score NaN for the
  class of the example.
\<close>

theorem fit_evt_models_robust_skips_nan:
  assumes "isnan loss \<or> isnan (classifier (predict_preprocess sen tokenizer max_length))"
  shows "fit_evt_models_robust_group classifier tokenizer rnd ((loss, sen, cls) # rest)
             max_length class_to_samples =
           fit_evt_models_robust_group classifier tokenizer rnd rest max_length
             class_to_samples
       \<and> fit_evt_models_robust classifier tokenizer rnd pc G P (loss # losses)
             (sen # sentences) (cls # true_classes) max_length fpr =
           fit_evt_models_robust classifier tokenizer rnd pc G P losses sentences true_classes
             max_length fpr
       \<and> fit_evt_models_group classifier tokenizer rnd ((loss, sen, cls) # rest) max_length
             samples =
           fit_evt_models_group classifier tokenizer rnd rest max_length
             (append_score cls NaN samples)"
proof -
  have s: "ood_score rnd (classifier (predict_preprocess sen tokenizer max_length)) loss = NaN"
    by (rule ood_score_nan [OF assms])
  have g: "fit_evt_models_robust_group classifier tokenizer rnd ((loss, sen, cls) # rest)
        max_length acc =
      fit_evt_models_robust_group classifier tokenizer rnd rest max_length acc" for rest acc
    by (simp add: s Let_def)
  show ?thesis
    by (simp add: g s fit_evt_models_robust_def Let_def del: fit_evt_models_robust_group.simps)
qed

theorem fit_evt_models_robust_skips_nan_witness:
  "isnan NaN
   \<and> fit_evt_models_robust_group ex_classifier ex_tokenizer Fin
        [(NaN, ''a'', 0::nat), (Fin 2, ''b'', 1)] 16 [] = [(1, [1])]
   \<and> fit_evt_models_robust ex_classifier ex_tokenizer Fin (percentile_lerp Fin)
        (\<lambda>xs. Inl FitFailure) (\<lambda>q shape loc scale. Fin (- loc))
        [NaN, Fin 2] [''a'', ''b''] [0, 1::nat] 16 0.05
      = Inr ([1 \<mapsto> Fin 1], Map.empty)
   \<and> fit_evt_models_group ex_classifier ex_tokenizer Fin
        [(NaN, ''a'', 0::nat), (Fin 2, ''b'', 1)] 16 [] = [(0, [NaN]), (1, [Fin 1])]"
  using fit_evt_models_robust_skips_nan [of NaN ex_classifier "''a''" ex_tokenizer 16 Fin
          "0::nat" "[(Fin 2, ''b'', 1)]" "[]" "percentile_lerp Fin" "\<lambda>xs. Inl FitFailure"
          "\<lambda>q shape loc scale. Fin (- loc)" "[Fin 2]" "[''b'']" "[1]" "0.05" "[]"]
  by (simp add: fit_eval)

end
